theory Spec2Isabelle
  imports Complex_Main
begin

section \<open>Numeric values\<close>

text \<open>
  The helpers of \<^verbatim>\<open>lineax/_misc.py\<close> compute on JAX arrays of floating-point numbers, and
  two of them branch on the special values (\<^verbatim>\<open>out == 0\<close>, \<^verbatim>\<open>jnp.isinf(out)\<close>, the comment
  "zero gradient, rather than NaN gradient"). An array element is therefore a value of
  \<open>fval\<close>: a finite number, one of the two infinities, or NaN. The operations follow the
  IEEE-754 rules for the special values; on finite numbers they are the exact operations
  of the reals: the rounding of each result to the floating type of the array, which can
  also take a large result to an infinity and a small one to zero, and the sign of zero
  are outside the model. The statements about these operations therefore say of which
  operations a result is composed, which branch is taken for which value, and what holds
  of the sign and of the special values; no statement about all arrays gives a result as
  an exact real number, and the examples use numbers whose results every floating type
  holds exactly. Where a value is converted to a floating type and a claim is about the
  value that is returned (\<^verbatim>\<open>resolve_rcond\<close>), the conversion is modelled with its rounding.
\<close>

datatype fval = Fin real | PInf | NInf | NaN

fun fneg :: "fval \<Rightarrow> fval" where
  "fneg (Fin a) = Fin (- a)"
| "fneg PInf = NInf"
| "fneg NInf = PInf"
| "fneg NaN = NaN"

fun fadd :: "fval \<Rightarrow> fval \<Rightarrow> fval" where
  "fadd (Fin a) (Fin b) = Fin (a + b)"
| "fadd NaN _ = NaN"
| "fadd _ NaN = NaN"
| "fadd PInf NInf = NaN"
| "fadd NInf PInf = NaN"
| "fadd PInf _ = PInf"
| "fadd _ PInf = PInf"
| "fadd NInf _ = NInf"
| "fadd _ NInf = NInf"

definition fsub :: "fval \<Rightarrow> fval \<Rightarrow> fval" where
  "fsub x y = fadd x (fneg y)"

text \<open>The sign of a value that is not NaN: \<open>1\<close>, \<open>0\<close> or \<open>-1\<close>.\<close>

fun fsign :: "fval \<Rightarrow> int" where
  "fsign (Fin a) = (if a > 0 then 1 else if a < 0 then - 1 else 0)"
| "fsign PInf = 1"
| "fsign NInf = - 1"
| "fsign NaN = 0"

definition inf_of_sign :: "int \<Rightarrow> fval" where
  "inf_of_sign s = (if s > 0 then PInf else if s < 0 then NInf else NaN)"

fun isinf :: "fval \<Rightarrow> bool" where
  "isinf PInf = True"
| "isinf NInf = True"
| "isinf _ = False"

fun fmul :: "fval \<Rightarrow> fval \<Rightarrow> fval" where
  "fmul (Fin a) (Fin b) = Fin (a * b)"
| "fmul NaN _ = NaN"
| "fmul _ NaN = NaN"
| "fmul x y = inf_of_sign (fsign x * fsign y)"

fun fdiv :: "fval \<Rightarrow> fval \<Rightarrow> fval" where
  "fdiv (Fin a) (Fin b) = (if b = 0 then inf_of_sign (fsign (Fin a)) else Fin (a / b))"
| "fdiv NaN _ = NaN"
| "fdiv _ NaN = NaN"
| "fdiv (Fin a) _ = Fin 0"
| "fdiv x (Fin b) = inf_of_sign (fsign x * (if b < 0 then - 1 else 1))"
| "fdiv _ _ = NaN"

fun fsqrt :: "fval \<Rightarrow> fval" where
  "fsqrt (Fin a) = (if a < 0 then NaN else Fin (sqrt a))"
| "fsqrt PInf = PInf"
| "fsqrt NInf = NaN"
| "fsqrt NaN = NaN"

fun fabs :: "fval \<Rightarrow> fval" where
  "fabs (Fin a) = Fin \<bar>a\<bar>"
| "fabs PInf = PInf"
| "fabs NInf = PInf"
| "fabs NaN = NaN"

text \<open>Comparisons: every comparison with NaN is false.\<close>

fun fless :: "fval \<Rightarrow> fval \<Rightarrow> bool" where
  "fless NaN _ = False"
| "fless _ NaN = False"
| "fless (Fin a) (Fin b) = (a < b)"
| "fless _ NInf = False"
| "fless NInf _ = True"
| "fless PInf _ = False"
| "fless _ PInf = True"

fun feq :: "fval \<Rightarrow> fval \<Rightarrow> bool" where
  "feq NaN _ = False"
| "feq _ NaN = False"
| "feq x y = (x = y)"

definition fle :: "fval \<Rightarrow> fval \<Rightarrow> bool" where
  "fle x y = (fless x y \<or> feq x y)"

text \<open>\<^verbatim>\<open>jnp.maximum\<close>: the larger of two values, NaN if either is NaN.\<close>

fun fmaximum :: "fval \<Rightarrow> fval \<Rightarrow> fval" where
  "fmaximum NaN _ = NaN"
| "fmaximum _ NaN = NaN"
| "fmaximum x y = (if fless x y then y else x)"

text \<open>
  \<^verbatim>\<open>jnp.where(pred, a, b)\<close> on scalars: a selection. Both values are computed before, and
  the one that is not selected has no influence on the result, not even when it is NaN.
\<close>

definition where_select :: "bool \<Rightarrow> 'a \<Rightarrow> 'a \<Rightarrow> 'a" where
  "where_select pred a b = (if pred then a else b)"

text \<open>The exceptions the helpers can end with.\<close>

datatype py_error =
    AssertionError     \<comment> \<open>a failed \<^verbatim>\<open>assert\<close>\<close>
  | FinfoError         \<comment> \<open>\<^verbatim>\<open>jnp.finfo\<close> of a type that is not inexact\<close>
  | DotShapeError      \<comment> \<open>\<^verbatim>\<open>jnp.dot\<close> or \<^verbatim>\<open>jnp.vdot\<close> of vectors of different sizes\<close>
  | ZeroSizeMaxError   \<comment> \<open>\<^verbatim>\<open>jnp.max\<close> of an array without elements\<close>
  | EmptyReduceError   \<comment> \<open>\<^verbatim>\<open>functools.reduce\<close> of an empty sequence with no initial value\<close>
  | OverflowError      \<comment> \<open>a Python integer outside the default integer type\<close>

section \<open>Data types of arrays\<close>

datatype dtype =
    Bool | Int8 | Int16 | Int32 | Int64 | UInt8 | UInt16 | UInt32 | UInt64
  | BFloat16 | Float16 | Float32 | Float64 | Complex64 | Complex128

text \<open>\<^verbatim>\<open>jnp.issubdtype(d, jnp.inexact)\<close>: the floating and the complex types.\<close>

fun is_inexact :: "dtype \<Rightarrow> bool" where
  "is_inexact BFloat16 = True"
| "is_inexact Float16 = True"
| "is_inexact Float32 = True"
| "is_inexact Float64 = True"
| "is_inexact Complex64 = True"
| "is_inexact Complex128 = True"
| "is_inexact _ = False"

text \<open>
  \<^verbatim>\<open>jnp.finfo(dtype).eps\<close>: the machine epsilon of a floating type (of the component type
  for a complex type); \<^verbatim>\<open>finfo\<close> raises an error for a type that is not inexact.
\<close>

fun finfo_eps :: "dtype \<Rightarrow> py_error + real" where
  "finfo_eps BFloat16 = Inr (1 / 2 ^ 7)"
| "finfo_eps Float16 = Inr (1 / 2 ^ 10)"
| "finfo_eps Float32 = Inr (1 / 2 ^ 23)"
| "finfo_eps Float64 = Inr (1 / 2 ^ 52)"
| "finfo_eps Complex64 = Inr (1 / 2 ^ 23)"
| "finfo_eps Complex128 = Inr (1 / 2 ^ 52)"
| "finfo_eps _ = Inl FinfoError"

section \<open>The rank tolerance: \<^verbatim>\<open>resolve_rcond\<close>\<close>

text \<open>
  \<^verbatim>\<open>
  def resolve_rcond(rcond, n, m, dtype):
      if rcond is None:
          return jnp.finfo(dtype).eps * max(n, m)
      else:
          return jnp.where(rcond < 0, jnp.finfo(dtype).eps, rcond)
  \<close>
  Both branches read \<^verbatim>\<open>jnp.finfo(dtype).eps\<close> before anything else, so a type without a
  machine epsilon ends either branch with the error of \<^verbatim>\<open>finfo\<close>. The first branch is a
  product of NumPy, of the machine epsilon and a Python integer. In the second branch
  \<^verbatim>\<open>rcond < 0\<close> compares the number as it was passed, and \<^verbatim>\<open>jnp.where\<close> returns a JAX
  array: it converts both values to the floating type of its result before it selects
  one. That type is chosen by JAX (from the type of the machine epsilon and the 64-bit
  mode; a Python number does not widen it), so the conversion is the parameter \<open>astype\<close>.
\<close>

definition resolve_rcond ::
  "(fval \<Rightarrow> fval) \<Rightarrow> fval option \<Rightarrow> int \<Rightarrow> int \<Rightarrow> dtype \<Rightarrow> py_error + fval" where
  "resolve_rcond astype rcond n m dt =
     (case rcond of
        None \<Rightarrow>
          (case finfo_eps dt of
             Inl e \<Rightarrow> Inl e
           | Inr eps \<Rightarrow> Inr (fmul (Fin eps) (Fin (of_int (max n m)))))
      | Some r \<Rightarrow>
          (case finfo_eps dt of
             Inl e \<Rightarrow> Inl e
           | Inr eps \<Rightarrow> Inr (where_select (fless r (Fin 0)) (astype (Fin eps)) (astype r))))"

subsection \<open>The conversion to single precision\<close>

text \<open>
  For \<^verbatim>\<open>dtype = float32\<close> the result of \<^verbatim>\<open>jnp.where\<close> has the type \<^verbatim>\<open>float32\<close>, and the
  conversion is the rounding of IEEE-754 to the nearest number of the format binary32,
  ties to the even significand. The numbers of the format are the \<open>m * 2\<^sup>e\<close> with
  \<open>|m| < 2\<^sup>2\<^sup>4\<close> and \<open>e \<ge> -149\<close> below \<open>2\<^sup>1\<^sup>2\<^sup>8\<close> in absolute value. A number \<open>r\<close> is rounded
  on the grid of step \<open>2\<^sup>e\<close> with \<open>e = max (-149) (\<lfloor>log\<^sub>2 |r|\<rfloor> - 23)\<close>; a result of
  absolute value \<open>2\<^sup>1\<^sup>2\<^sup>8\<close> or more is the infinity of its sign.
\<close>

definition round_half_even :: "real \<Rightarrow> int" where
  "round_half_even q =
     (let f = \<lfloor>q\<rfloor>; d = q - of_int f
      in if d < 1 / 2 then f else if 1 / 2 < d then f + 1 else if even f then f else f + 1)"

definition binary32_exponent :: "real \<Rightarrow> int" where
  "binary32_exponent r = max (- 149) (\<lfloor>log 2 \<bar>r\<bar>\<rfloor> - 23)"

definition round_binary32 :: "real \<Rightarrow> fval" where
  "round_binary32 r =
     (if r = 0 then Fin 0
      else let e = binary32_exponent r;
               v = of_int (round_half_even (r / 2 powi e)) * 2 powi e
           in if 2 ^ 128 \<le> \<bar>v\<bar> then (if 0 < v then PInf else NInf) else Fin v)"

fun to_float32 :: "fval \<Rightarrow> fval" where
  "to_float32 (Fin r) = round_binary32 r"
| "to_float32 v = v"

section \<open>Arrays and structured containers\<close>

text \<open>
  A complex number is a pair of its real and imaginary part. Multiplication, conjugation
  and addition are the usual formulas on the parts.
\<close>

type_synonym cval = "fval \<times> fval"

definition cmul :: "cval \<Rightarrow> cval \<Rightarrow> cval" where
  "cmul z w =
     (fsub (fmul (fst z) (fst w)) (fmul (snd z) (snd w)),
      fadd (fmul (fst z) (snd w)) (fmul (snd z) (fst w)))"

definition cconj :: "cval \<Rightarrow> cval" where
  "cconj z = (fst z, fneg (snd z))"

definition cadd :: "cval \<Rightarrow> cval \<Rightarrow> cval" where
  "cadd z w = (fadd (fst z) (fst w), fadd (snd z) (snd w))"

definition of_real_c :: "fval \<Rightarrow> cval" where
  "of_real_c a = (a, Fin 0)"

text \<open>
  An array is the list of its elements in row-major order, all real or all complex; the
  helpers modelled here flatten their arguments or reduce over all elements, so the shape
  is not kept. A scalar (an array of shape \<^verbatim>\<open>()\<close>) is a real or a complex value.
\<close>

datatype array = RealArr "fval list" | CplxArr "cval list"

datatype scalar = RealS fval | CplxS cval

fun size_arr :: "array \<Rightarrow> nat" where
  "size_arr (RealArr xs) = length xs"
| "size_arr (CplxArr zs) = length zs"

fun is_cplx :: "array \<Rightarrow> bool" where
  "is_cplx (RealArr _) = False"
| "is_cplx (CplxArr _) = True"

fun real_elems :: "array \<Rightarrow> fval list" where
  "real_elems (RealArr xs) = xs"
| "real_elems (CplxArr zs) = map fst zs"

text \<open>The elements of an array converted to the complex type.\<close>

fun cplx_elems :: "array \<Rightarrow> cval list" where
  "cplx_elems (RealArr xs) = map of_real_c xs"
| "cplx_elems (CplxArr zs) = zs"

text \<open>
  A structured container ("pytree"): an array leaf, or a node (a list, a tuple, a
  dictionary, \<^verbatim>\<open>None\<close>) with its children in order.
\<close>

datatype pytree = Leaf array | Node "pytree list"

fun tree_leaves :: "pytree \<Rightarrow> array list" where
  "tree_leaves (Leaf a) = [a]"
| "tree_leaves (Node ts) = concat (map tree_leaves ts)"

text \<open>
  \<^verbatim>\<open>jfu.ravel_pytree(x)\<close>: the leaves, converted to their common type, flattened and
  concatenated into one vector. The common type is complex as soon as one leaf is
  complex. Without leaves the vector is the empty real vector.
\<close>

definition ravel_pytree :: "pytree \<Rightarrow> array" where
  "ravel_pytree x =
     (let leaves = tree_leaves x
      in if list_ex is_cplx leaves then CplxArr (concat (map cplx_elems leaves))
         else RealArr (concat (map real_elems leaves)))"

subsection \<open>Elementwise operations and reductions\<close>

text \<open>\<^verbatim>\<open>jnp.conj(x)\<close>, \<^verbatim>\<open>x * y\<close> on vectors of one length, \<^verbatim>\<open>jnp.real(x)\<close>, \<^verbatim>\<open>jnp.sum(x)\<close>.\<close>

fun conj_arr :: "array \<Rightarrow> array" where
  "conj_arr (RealArr xs) = RealArr xs"
| "conj_arr (CplxArr zs) = CplxArr (map cconj zs)"

fun mul_arr :: "array \<Rightarrow> array \<Rightarrow> array" where
  "mul_arr (RealArr xs) (RealArr ys) = RealArr (map2 fmul xs ys)"
| "mul_arr x y = CplxArr (map2 cmul (cplx_elems x) (cplx_elems y))"

definition fsum :: "fval list \<Rightarrow> fval" where
  "fsum xs = foldr fadd xs (Fin 0)"

text \<open>
  \<^verbatim>\<open>jnp.dot(x, y)\<close> on two vectors: the sum of the products of the elements, with no
  conjugation; vectors of different sizes are an error. \<^verbatim>\<open>jnp.vdot(x, y, precision)\<close>
  flattens both arguments and conjugates the first. Both hand the contraction to
  \<^verbatim>\<open>lax.dot_general\<close> with the precision asked for (\<^verbatim>\<open>jnp.dot(x, tx)\<close> asks for none, which
  is the default); how the precision changes the accumulated sum belongs to the backend.
  The accumulation is therefore the parameter \<open>psum\<close>: \<open>psum prec vs\<close> is the sum of the
  products \<open>vs\<close> as the backend accumulates it at precision \<open>prec\<close>. The real and the
  imaginary part of a complex contraction are accumulated separately.
\<close>

datatype precision = Default | High | Highest

type_synonym accumulation = "precision \<Rightarrow> fval list \<Rightarrow> fval"

definition dot_general :: "accumulation \<Rightarrow> precision \<Rightarrow> array \<Rightarrow> array \<Rightarrow> py_error + scalar" where
  "dot_general psum prec x y =
     (if size_arr x \<noteq> size_arr y then Inl DotShapeError
      else if is_cplx x \<or> is_cplx y
        then (let ps = map2 cmul (cplx_elems x) (cplx_elems y)
              in Inr (CplxS (psum prec (map fst ps), psum prec (map snd ps))))
        else Inr (RealS (psum prec (map2 fmul (real_elems x) (real_elems y)))))"

definition dot :: "accumulation \<Rightarrow> array \<Rightarrow> array \<Rightarrow> py_error + scalar" where
  "dot psum x y = dot_general psum Default x y"

definition vdot :: "accumulation \<Rightarrow> precision \<Rightarrow> array \<Rightarrow> array \<Rightarrow> py_error + scalar" where
  "vdot psum prec x y = dot_general psum prec (conj_arr x) y"

text \<open>
  Two accumulations, for the evaluation of examples. \<open>exact_sum\<close> adds the products
  exactly at every precision. \<open>coarse_sum\<close> adds them exactly only at the highest
  precision, and at the other precisions it cuts every finite product to a whole number
  before it adds it: a backend whose result depends on the precision asked for.
\<close>

definition exact_sum :: accumulation where
  "exact_sum prec vs = fsum vs"

fun cut :: "fval \<Rightarrow> fval" where
  "cut (Fin a) = Fin (of_int \<lfloor>a\<rfloor>)"
| "cut v = v"

definition coarse_sum :: accumulation where
  "coarse_sum prec vs = (if prec = Highest then fsum vs else fsum (map cut vs))"

text \<open>Addition of scalars and the division of a scalar by a real number.\<close>

fun sadd :: "scalar \<Rightarrow> scalar \<Rightarrow> scalar" where
  "sadd (RealS a) (RealS b) = RealS (fadd a b)"
| "sadd (RealS a) (CplxS w) = CplxS (cadd (of_real_c a) w)"
| "sadd (CplxS z) (RealS b) = CplxS (cadd z (of_real_c b))"
| "sadd (CplxS z) (CplxS w) = CplxS (cadd z w)"

fun sdiv :: "scalar \<Rightarrow> fval \<Rightarrow> scalar" where
  "sdiv (RealS a) d = RealS (fdiv a d)"
| "sdiv (CplxS z) d = CplxS (fdiv (fst z) d, fdiv (snd z) d)"

text \<open>The zero of the type of a scalar: what \<^verbatim>\<open>jnp.where(pred, 0, s)\<close> selects.\<close>

fun zero_like :: "scalar \<Rightarrow> scalar" where
  "zero_like (RealS _) = RealS (Fin 0)"
| "zero_like (CplxS _) = CplxS (Fin 0, Fin 0)"

section \<open>The two-norm and its derivative rule\<close>

text \<open>
  \<^verbatim>\<open>
  @jax.custom_jvp
  def _two_norm(x):
      x_sq = jnp.real(x * jnp.conj(x))
      return jnp.sqrt(jnp.sum(x_sq))
  \<close>
  A leading underscore of a source name is written \<open>u_\<close>.
\<close>

definition u_two_norm :: "array \<Rightarrow> fval" where
  "u_two_norm x =
     (let x_sq = real_elems (mul_arr x (conj_arr x))
      in fsqrt (fsum x_sq))"

text \<open>
  \<^verbatim>\<open>
  @_two_norm.defjvp
  def _two_norm_jvp(x, tx):
      (x,) = x
      (tx,) = tx
      out = _two_norm(x)
      # Get zero gradient, rather than NaN gradient, in these cases
      pred = (out == 0) | jnp.isinf(out)
      numerator = jnp.where(pred, 0, jnp.dot(x, tx))
      denominator = jnp.where(pred, 1, out)
      t_out = numerator / denominator
      return out, t_out
  \<close>
  \<^verbatim>\<open>jnp.dot(x, tx)\<close> is computed whatever \<^verbatim>\<open>pred\<close> is, so its error ends the rule.
\<close>

definition u_two_norm_jvp :: "accumulation \<Rightarrow> array \<Rightarrow> array \<Rightarrow> py_error + (fval \<times> scalar)" where
  "u_two_norm_jvp psum x tx =
     (let out = u_two_norm x;
          pred = (feq out (Fin 0) \<or> isinf out)
      in case dot psum x tx of
           Inl e \<Rightarrow> Inl e
         | Inr d \<Rightarrow>
             (let numerator = where_select pred (zero_like d) d;
                  denominator = where_select pred (Fin 1) out;
                  t_out = sdiv numerator denominator
              in Inr (out, t_out)))"

text \<open>
  \<^verbatim>\<open>
  def two_norm(x: PyTree) -> Scalar:
      x, _ = jfu.ravel_pytree(x)
      return jnp.array(0.0) if x.size == 0 else _two_norm(x)
  \<close>
  The result records where its value comes from: \<open>Literal\<close> is the constant
  \<^verbatim>\<open>jnp.array(0.0)\<close>, which carries no derivative rule; \<open>Custom_call\<close> is the value of a call
  of \<^verbatim>\<open>_two_norm\<close>, the function registered with \<^verbatim>\<open>jax.custom_jvp\<close>, which JAX
  differentiates with \<^verbatim>\<open>_two_norm_jvp\<close>.
\<close>

datatype norm_result = Literal fval | Custom_call fval

fun value_of :: "norm_result \<Rightarrow> fval" where
  "value_of (Literal v) = v"
| "value_of (Custom_call v) = v"

definition two_norm :: "pytree \<Rightarrow> norm_result" where
  "two_norm x =
     (let v = ravel_pytree x
      in if size_arr v = 0 then Literal (Fin 0) else Custom_call (u_two_norm v))"

section \<open>Inner product and maximum norm of containers\<close>

text \<open>
  \<^verbatim>\<open>
  def tree_dot(a: PyTree[Array], b: PyTree[Array]) -> Array:
      a = jtu.tree_leaves(a)
      b = jtu.tree_leaves(b)
      assert len(a) == len(b)
      return sum(
          jnp.vdot(ai, bi, precision=lax.Precision.HIGHEST)
          for ai, bi in zip(a, b)
      )
  \<close>
  Python's \<^verbatim>\<open>sum\<close> starts from \<open>0\<close> and adds the terms from left to right; the first
  \<^verbatim>\<open>vdot\<close> that fails ends it.
\<close>

fun sum_vdots :: "accumulation \<Rightarrow> scalar \<Rightarrow> (array \<times> array) list \<Rightarrow> py_error + scalar" where
  "sum_vdots psum acc [] = Inr acc"
| "sum_vdots psum acc ((ai, bi) # rest) =
     (case vdot psum Highest ai bi of
        Inl e \<Rightarrow> Inl e
      | Inr v \<Rightarrow> sum_vdots psum (sadd acc v) rest)"

definition tree_dot :: "accumulation \<Rightarrow> pytree \<Rightarrow> pytree \<Rightarrow> py_error + scalar" where
  "tree_dot psum a b =
     (let la = tree_leaves a; lb = tree_leaves b
      in if length la \<noteq> length lb then Inl AssertionError
         else sum_vdots psum (RealS (Fin 0)) (zip la lb))"

text \<open>
  \<^verbatim>\<open>
  def max_norm(x: PyTree) -> Scalar:
      # a standard python max will fail when jax tracers are introduced.
      return jtu.tree_reduce(
          jnp.maximum,
          [jnp.max(jnp.abs(xi)) for xi in jtu.tree_leaves(x)],
      )
  \<close>
  \<^verbatim>\<open>jnp.abs\<close> of a complex number is its modulus, here the square root of the sum of the
  squares of its parts. \<^verbatim>\<open>jnp.max\<close> of an array without
  elements is an error. The list of the maxima of the leaves is built first;
  \<^verbatim>\<open>jtu.tree_reduce\<close> with no initial value is \<^verbatim>\<open>functools.reduce\<close> over that list, which
  is an error on the empty list and a fold from the left otherwise.
\<close>

definition cabs :: "cval \<Rightarrow> fval" where
  "cabs z = fsqrt (fadd (fmul (fst z) (fst z)) (fmul (snd z) (snd z)))"

fun abs_arr :: "array \<Rightarrow> fval list" where
  "abs_arr (RealArr xs) = map fabs xs"
| "abs_arr (CplxArr zs) = map cabs zs"

fun jnp_max :: "fval list \<Rightarrow> py_error + fval" where
  "jnp_max [] = Inl ZeroSizeMaxError"
| "jnp_max (v # vs) = Inr (foldl fmaximum v vs)"

fun leaf_maxima :: "array list \<Rightarrow> py_error + fval list" where
  "leaf_maxima [] = Inr []"
| "leaf_maxima (xi # rest) =
     (case jnp_max (abs_arr xi) of
        Inl e \<Rightarrow> Inl e
      | Inr m \<Rightarrow> (case leaf_maxima rest of Inl e \<Rightarrow> Inl e | Inr ms \<Rightarrow> Inr (m # ms)))"

fun tree_reduce_maximum :: "fval list \<Rightarrow> py_error + fval" where
  "tree_reduce_maximum [] = Inl EmptyReduceError"
| "tree_reduce_maximum (m # ms) = Inr (foldl fmaximum m ms)"

definition max_norm :: "pytree \<Rightarrow> py_error + fval" where
  "max_norm x =
     (case leaf_maxima (tree_leaves x) of
        Inl e \<Rightarrow> Inl e
      | Inr ms \<Rightarrow> tree_reduce_maximum ms)"

section \<open>The choice between forward and reverse mode: \<^verbatim>\<open>jacobian\<close>\<close>

text \<open>
  \<^verbatim>\<open>
  def jacobian(fn, in_size, out_size, has_aux=False):
      # Heuristic for which is better in each case
      # These could probably be tuned a lot more.
      if (in_size < 100) or (in_size <= 1.5 * out_size):
          return jax.jacfwd(fn, has_aux=has_aux)
      else:
          return jax.jacrev(fn, has_aux=has_aux)
  \<close>
  The sizes are Python integers, and Python compares an integer with the floating-point
  product \<^verbatim>\<open>1.5 * out_size\<close> by value; for the sizes of arrays the product is exact. The
  result is a function made by one of JAX's two
  transformations; \<open>jac_fun\<close> records which one, with the function and the flag it was
  given.
\<close>

datatype 'f jac_fun = Jacfwd 'f bool | Jacrev 'f bool

fun is_forward :: "'f jac_fun \<Rightarrow> bool" where
  "is_forward (Jacfwd _ _) = True"
| "is_forward (Jacrev _ _) = False"

definition jacobian :: "'f \<Rightarrow> int \<Rightarrow> int \<Rightarrow> bool \<Rightarrow> 'f jac_fun" where
  "jacobian fn in_size out_size has_aux =
     (if in_size < 100 \<or> real_of_int in_size \<le> 1.5 * real_of_int out_size
      then Jacfwd fn has_aux
      else Jacrev fn has_aux)"

subsection \<open>What the two transformations compute\<close>

text \<open>
  \<^verbatim>\<open>jax.jacfwd\<close> and \<^verbatim>\<open>jax.jacrev\<close> belong to JAX. They are modelled in exact arithmetic,
  for a function from vectors to vectors: JAX knows of \<open>fn\<close> its value, its auxiliary
  output, and its linearisation at a point, here the matrix \<open>deriv fn x\<close> of partial
  derivatives (one row per output, one column per input). Forward mode pushes a tangent
  through the linearisation, reverse mode pulls a cotangent back through its transpose.
  \<^verbatim>\<open>jacfwd\<close> pushes every unit vector of the input space and stacks the results as
  columns; \<^verbatim>\<open>jacrev\<close> pulls every unit vector of the output space back and stacks the
  results as rows. With \<^verbatim>\<open>has_aux\<close> the auxiliary output is returned beside the matrix.
\<close>

record 'aux diff_fun =
  primal :: "real list \<Rightarrow> real list"
  aux_out :: "real list \<Rightarrow> 'aux"
  deriv :: "real list \<Rightarrow> real list list"

definition unit_vec :: "nat \<Rightarrow> nat \<Rightarrow> real list" where
  "unit_vec n j = map (\<lambda>k. if k = j then 1 else 0) [0..<n]"

definition dot_r :: "real list \<Rightarrow> real list \<Rightarrow> real" where
  "dot_r xs ys = sum_list (map2 (*) xs ys)"

definition jvp :: "'aux diff_fun \<Rightarrow> real list \<Rightarrow> real list \<Rightarrow> real list" where
  "jvp fn x t = map (\<lambda>row. dot_r row t) (deriv fn x)"

definition vjp :: "'aux diff_fun \<Rightarrow> real list \<Rightarrow> real list \<Rightarrow> real list" where
  "vjp fn x c =
     map (\<lambda>j. dot_r c (map (\<lambda>row. row ! j) (deriv fn x))) [0..<length x]"

definition jacfwd :: "'aux diff_fun \<Rightarrow> real list \<Rightarrow> real list list" where
  "jacfwd fn x =
     (let n = length x; m = length (primal fn x);
          cols = map (\<lambda>j. jvp fn x (unit_vec n j)) [0..<n]
      in map (\<lambda>i. map (\<lambda>col. col ! i) cols) [0..<m])"

definition jacrev :: "'aux diff_fun \<Rightarrow> real list \<Rightarrow> real list list" where
  "jacrev fn x =
     (let m = length (primal fn x)
      in map (\<lambda>i. vjp fn x (unit_vec m i)) [0..<m])"

fun apply_jac :: "'aux diff_fun jac_fun \<Rightarrow> real list \<Rightarrow> real list list \<times> 'aux option" where
  "apply_jac (Jacfwd fn has_aux) x =
     (jacfwd fn x, if has_aux then Some (aux_out fn x) else None)"
| "apply_jac (Jacrev fn has_aux) x =
     (jacrev fn x, if has_aux then Some (aux_out fn x) else None)"

text \<open>
  The linearisation at \<open>x\<close> has the shape of the function: as many rows as outputs, each
  with as many entries as inputs.
\<close>

definition wf_deriv :: "'aux diff_fun \<Rightarrow> real list \<Rightarrow> bool" where
  "wf_deriv fn x =
     (length (deriv fn x) = length (primal fn x)
      \<and> list_all (\<lambda>row. length row = length x) (deriv fn x))"

section \<open>Conversion to an inexact type: \<^verbatim>\<open>inexact_asarray\<close>\<close>

text \<open>
  A value of JAX is given by its type, the one \<^verbatim>\<open>jnp.result_type\<close> reports for it, and its
  elements. The process-wide configuration of JAX is an argument.
  \<^verbatim>\<open>jnp.asarray(x, dtype=dtype)\<close> belongs to JAX: it gives the array the type asked for
  and converts each element; the conversion of one element to a type is the parameter
  \<open>conv\<close>.
\<close>

record 'a typed_array =
  arr_dtype :: dtype
  arr_elems :: "'a list"

record jax_config =
  jax_enable_x64 :: bool

definition result_type :: "'a typed_array \<Rightarrow> dtype" where
  "result_type x = arr_dtype x"

text \<open>
  The argument of \<^verbatim>\<open>inexact_asarray\<close> is array-like: a Python integer, given by its
  value, or a value that has its type already (an array, a Python truth value or
  floating-point number). JAX reads a Python integer as a scalar of the default integer
  type, \<^verbatim>\<open>int64\<close> in 64-bit mode and \<^verbatim>\<open>int32\<close> otherwise, and raises \<^verbatim>\<open>OverflowError\<close> for an
  integer outside the range of that type. Every function of JAX that is handed the
  argument reads it so; in \<^verbatim>\<open>inexact_asarray\<close> the error therefore ends the call before
  there is a result, and the model reads the argument once, first.
\<close>

datatype 'a arraylike = PyIntArg int | ArrayArg "'a typed_array"

definition default_int_dtype :: "jax_config \<Rightarrow> dtype" where
  "default_int_dtype cfg = (if jax_enable_x64 cfg then Int64 else Int32)"

definition int_bits :: "jax_config \<Rightarrow> nat" where
  "int_bits cfg = (if jax_enable_x64 cfg then 64 else 32)"

fun as_jax_value :: "jax_config \<Rightarrow> 'a::ring_1 arraylike \<Rightarrow> py_error + 'a typed_array" where
  "as_jax_value cfg (PyIntArg i) =
     (if i < - (2 ^ (int_bits cfg - 1)) \<or> 2 ^ (int_bits cfg - 1) - 1 < i then Inl OverflowError
      else Inr \<lparr>arr_dtype = default_int_dtype cfg, arr_elems = [of_int i]\<rparr>)"
| "as_jax_value cfg (ArrayArg a) = Inr a"

text \<open>
  \<^verbatim>\<open>
  def default_floating_dtype():
      return jnp.float64 if jax.config.jax_enable_x64 else jnp.float32
  \<close>
\<close>

definition default_floating_dtype :: "jax_config \<Rightarrow> dtype" where
  "default_floating_dtype cfg = (if jax_enable_x64 cfg then Float64 else Float32)"

text \<open>
  \<^verbatim>\<open>
  def _asarray(dtype, x):
      return jnp.asarray(x, dtype=dtype)

  # Work around JAX issue #15676
  _asarray = jax.custom_jvp(_asarray, nondiff_argnums=(0,))

  @_asarray.defjvp
  def _asarray_jvp(dtype, x, tx):
      (x,) = x
      (tx,) = tx
      return _asarray(dtype, x), _asarray(dtype, tx)
  \<close>
\<close>

definition u_asarray :: "(dtype \<Rightarrow> 'a \<Rightarrow> 'a) \<Rightarrow> dtype \<Rightarrow> 'a typed_array \<Rightarrow> 'a typed_array" where
  "u_asarray conv dt x = \<lparr>arr_dtype = dt, arr_elems = map (conv dt) (arr_elems x)\<rparr>"

definition u_asarray_jvp ::
  "(dtype \<Rightarrow> 'a \<Rightarrow> 'a) \<Rightarrow> dtype \<Rightarrow> 'a typed_array \<Rightarrow> 'a typed_array
    \<Rightarrow> 'a typed_array \<times> 'a typed_array" where
  "u_asarray_jvp conv dt x tx = (u_asarray conv dt x, u_asarray conv dt tx)"

text \<open>
  \<^verbatim>\<open>
  def inexact_asarray(x):
      dtype = jnp.result_type(x)
      if not jnp.issubdtype(jnp.result_type(x), jnp.inexact):
          dtype = default_floating_dtype()
      return _asarray(dtype, x)
  \<close>
\<close>

definition inexact_asarray ::
  "jax_config \<Rightarrow> (dtype \<Rightarrow> 'a \<Rightarrow> 'a) \<Rightarrow> 'a::ring_1 arraylike \<Rightarrow> py_error + 'a typed_array" where
  "inexact_asarray cfg conv x =
     (case as_jax_value cfg x of
        Inl e \<Rightarrow> Inl e
      | Inr v \<Rightarrow>
          (let dtype = result_type v;
               dtype = (if \<not> is_inexact (result_type v) then default_floating_dtype cfg else dtype)
           in Inr (u_asarray conv dtype v)))"

section \<open>Shape inference with a cache: \<^verbatim>\<open>cached_eval_shape\<close>\<close>

text \<open>
  The call \<^verbatim>\<open>cached_eval_shape(fn, *args, **kwargs)\<close> works on the container
  \<^verbatim>\<open>(fn, args, kwargs)\<close>, given here as \<^verbatim>\<open>jtu.tree_flatten\<close> returns it: its leaves and its
  structure. A leaf is a JAX array (shape, type and elements), a
  \<^verbatim>\<open>jax.ShapeDtypeStruct\<close> (shape and type only), or any other Python object: a truth
  value, an integer, a floating-point number, or an object with an identity, such as the
  function itself.
\<close>

datatype pyval = PyBool bool | PyInt int | PyFloat real | PyObj nat

datatype 'd leaf =
    ArrayL "nat list" dtype 'd
  | StructL "nat list" dtype
  | StaticL pyval

text \<open>
  \<^verbatim>\<open>
  def _to_struct(x):
      return jax.ShapeDtypeStruct(x.shape, x.dtype) if eqx.is_array(x) else x
  \<close>
\<close>

fun u_to_struct :: "'d leaf \<Rightarrow> 'd leaf" where
  "u_to_struct (ArrayL shape dt _) = StructL shape dt"
| "u_to_struct x = x"

text \<open>
  \<^verbatim>\<open>eqx.filter_eval_shape(fn, *args, **kwargs)\<close> belongs to Equinox: it traces the function
  with every array replaced by its shape and type, so it never looks at the elements.
  What the trace of a given function returns is the parameter \<open>trace\<close>, a function of the
  structure and the abstracted leaves.
\<close>

fun abstract_leaf :: "'d leaf \<Rightarrow> unit leaf" where
  "abstract_leaf (ArrayL shape dt _) = StructL shape dt"
| "abstract_leaf (StructL shape dt) = StructL shape dt"
| "abstract_leaf (StaticL v) = StaticL v"

definition filter_eval_shape ::
  "('t \<Rightarrow> unit leaf list \<Rightarrow> 'r) \<Rightarrow> 't \<Rightarrow> 'd leaf list \<Rightarrow> 'r" where
  "filter_eval_shape trace treedef leaves = trace treedef (map abstract_leaf leaves)"

subsection \<open>Equality of keys\<close>





subsection \<open>The cache\<close>







section \<open>The solve entry point\<close>

text \<open>
  Modelled from the spec: \<^verbatim>\<open>linear_solve\<close>, the operators, the tags and the solvers are not
  among the source files; only tests that call them are (\<^verbatim>\<open>tests/test_solve.py\<close>). The
  definitions of this section follow sections 3, 4.2, 4.3, 4.4, 6 and 7 of the
  specification, for operators between lists of scalars, in exact arithmetic.
\<close>

datatype tag =
    symmetric_tag | lower_triangular_tag | upper_triangular_tag | diagonal_tag
  | tridiagonal_tag | positive_semidefinite_tag | negative_semidefinite_tag
  | unit_diagonal_tag

datatype solver = LU | QR | SVD | Cholesky | Diagonal | Triangular | Tridiagonal
  | CG | NormalCG | GMRES

text \<open>The status of a solve, and the errors of section 7.\<close>

datatype status = Successful | Singular | NonConvergence | Breakdown

datatype solve_error = StructureMismatch | TagViolation | SolverFailed status

text \<open>
  Modelled from the spec: an operator has an input and an output structure (here the
  numbers of scalar leaves), a dense matrix it can be materialised to, and its tags.
\<close>

record operator =
  as_dense :: "real list list"
  op_in_size :: nat
  op_out_size :: nat
  op_tags :: "tag list"

text \<open>
  Modelled from the spec: the nested-structure-backed operator is built from a nested
  container of blocks and a declared output structure. Block \<open>blocks ! i ! j\<close> maps input
  leaf \<open>j\<close> to output leaf \<open>i\<close>, so for scalar leaves the blocks are the rows of the dense
  matrix. The constructor fails with a structure mismatch unless there is one row of
  blocks per output leaf and all rows have one length.
\<close>

definition PyTreeLinearOperator ::
  "real list list \<Rightarrow> nat \<Rightarrow> tag list \<Rightarrow> solve_error + operator" where
  "PyTreeLinearOperator blocks output_structure ts =
     (if length blocks \<noteq> output_structure then Inl StructureMismatch
      else case blocks of
        [] \<Rightarrow> Inr \<lparr>as_dense = [], op_in_size = 0, op_out_size = 0, op_tags = ts\<rparr>
      | row # rows \<Rightarrow>
          if list_all (\<lambda>r. length r = length row) rows
          then Inr \<lparr>as_dense = blocks, op_in_size = length row,
                    op_out_size = output_structure, op_tags = ts\<rparr>
          else Inl StructureMismatch)"

text \<open>
  Modelled from the spec: the result of a solve is the solution with a status; after a
  failure the value keeps its structure and is filled with NaN.
\<close>

record solution =
  sol_value :: "fval list"
  sol_result :: status

subsection \<open>The LU solver\<close>

text \<open>
  Modelled from the spec: "partial-pivoting factorization + substitution". The rows of
  the system carry their right-hand side. For each unknown in turn, the row whose leading
  coefficient is largest in absolute value (the first of them) is the pivot row; a zero
  pivot means a singular operator. The multiples of the pivot row that clear the leading
  coefficients are subtracted from the other rows, the smaller system is solved in the
  same way, and the unknown is obtained by substitution in the pivot row.
\<close>

type_synonym row = "real list \<times> real"

fun lead :: "row \<Rightarrow> real" where
  "lead ([], _) = 0"
| "lead (a # _, _) = a"

fun select_pivot :: "row list \<Rightarrow> (row \<times> row list) option" where
  "select_pivot [] = None"
| "select_pivot (r # rs) =
     (case select_pivot rs of
        None \<Rightarrow> Some (r, [])
      | Some (p, rest) \<Rightarrow>
          if \<bar>lead r\<bar> \<ge> \<bar>lead p\<bar> then Some (r, rs) else Some (p, r # rest))"

definition eliminate :: "row \<Rightarrow> row \<Rightarrow> row" where
  "eliminate p r =
     (let f = lead r / lead p
      in (map2 (\<lambda>x y. x - f * y) (tl (fst r)) (tl (fst p)), snd r - f * snd p))"

primrec lu_rows :: "nat \<Rightarrow> row list \<Rightarrow> real list option" where
  "lu_rows 0 rows = Some []"
| "lu_rows (Suc k) rows =
     (case select_pivot rows of
        None \<Rightarrow> None
      | Some (p, rest) \<Rightarrow>
          if lead p = 0 then None
          else (case lu_rows k (map (eliminate p) rest) of
                  None \<Rightarrow> None
                | Some xs \<Rightarrow>
                    Some ((snd p - sum_list (map2 (*) (tl (fst p)) xs)) / lead p # xs)))"

definition lu_solve :: "real list list \<Rightarrow> real list \<Rightarrow> solution" where
  "lu_solve A b =
     (case lu_rows (length b) (zip A b) of
        None \<Rightarrow> \<lparr>sol_value = replicate (length b) NaN, sol_result = Singular\<rparr>
      | Some xs \<Rightarrow> \<lparr>sol_value = map Fin xs, sol_result = Successful\<rparr>)"

subsection \<open>The dispatcher\<close>

text \<open>
  Modelled from the spec: without a solver, one is chosen from the tags: Cholesky for a
  symmetric positive definite operator, the triangular solver for a triangular one,
  otherwise LU for a square operator and QR for any other.
\<close>

definition default_solver :: "operator \<Rightarrow> solver" where
  "default_solver op =
     (if symmetric_tag \<in> set (op_tags op) \<and> positive_semidefinite_tag \<in> set (op_tags op)
        then Cholesky
      else if lower_triangular_tag \<in> set (op_tags op) \<or> upper_triangular_tag \<in> set (op_tags op)
        then Triangular
      else if op_in_size op = op_out_size op then LU
      else QR)"

text \<open>Modelled from the spec: what each solver requires of the operator (section 4.3).\<close>

fun requirement :: "solver \<Rightarrow> operator \<Rightarrow> solve_error option" where
  "requirement LU op = (if op_in_size op = op_out_size op then None else Some StructureMismatch)"
| "requirement GMRES op = (if op_in_size op = op_out_size op then None else Some StructureMismatch)"
| "requirement Cholesky op =
     (if symmetric_tag \<in> set (op_tags op) \<and> positive_semidefinite_tag \<in> set (op_tags op)
      then None else Some TagViolation)"
| "requirement CG op =
     (if symmetric_tag \<in> set (op_tags op) \<and> positive_semidefinite_tag \<in> set (op_tags op)
      then None else Some TagViolation)"
| "requirement Diagonal op = (if diagonal_tag \<in> set (op_tags op) then None else Some TagViolation)"
| "requirement Triangular op =
     (if lower_triangular_tag \<in> set (op_tags op) \<or> upper_triangular_tag \<in> set (op_tags op)
      then None else Some TagViolation)"
| "requirement Tridiagonal op =
     (if tridiagonal_tag \<in> set (op_tags op) then None else Some TagViolation)"
| "requirement _ op = None"

text \<open>
  Modelled from the spec: \<^verbatim>\<open>linear_solve(operator, b, solver=None, throw=True)\<close>. The
  structure of \<open>b\<close> must be the output structure of the operator; the solver is the one
  given or the default one; its requirement is checked; it is run; a failure status is
  raised as an error when \<open>throw\<close> is set and returned in the result otherwise. Of the
  solvers only LU is modelled; the others are the parameter \<open>others\<close>.
\<close>

definition linear_solve ::
  "(solver \<Rightarrow> real list list \<Rightarrow> real list \<Rightarrow> solution) \<Rightarrow> operator \<Rightarrow> real list
    \<Rightarrow> solver option \<Rightarrow> bool \<Rightarrow> solve_error + solution" where
  "linear_solve others op b solver_arg throw =
     (if length b \<noteq> op_out_size op then Inl StructureMismatch
      else
        let s = (case solver_arg of None \<Rightarrow> default_solver op | Some s \<Rightarrow> s)
        in case requirement s op of
             Some e \<Rightarrow> Inl e
           | None \<Rightarrow>
               (let sol = (if s = LU then lu_solve (as_dense op) b
                           else others s (as_dense op) b)
                in if throw \<and> sol_result sol \<noteq> Successful
                   then Inl (SolverFailed (sol_result sol))
                   else Inr sol))"

text \<open>
  The scenario of \<^verbatim>\<open>test_nontrivial_pytree_operator\<close>: the operator is built from the
  blocks and the structure of the right-hand side, and solved with the defaults.
  \<^verbatim>\<open>
  x = [[1, 5.0], [jnp.array(-2), jnp.array(-2.0)]]
  y = [3, 4]
  struct = jax.eval_shape(lambda: y)
  operator = lx.PyTreeLinearOperator(x, struct)
  out = lx.linear_solve(operator, y).value
  \<close>
\<close>

definition test_nontrivial_pytree_operator ::
  "(solver \<Rightarrow> real list list \<Rightarrow> real list \<Rightarrow> solution) \<Rightarrow> solve_error + fval list" where
  "test_nontrivial_pytree_operator others =
     (let x = [[1, 5], [- 2, - 2]];
          y = [3, 4]
      in case PyTreeLinearOperator x (length y) [] of
           Inl e \<Rightarrow> Inl e
         | Inr operator \<Rightarrow>
             (case linear_solve others operator y None True of
                Inl e \<Rightarrow> Inl e
              | Inr out \<Rightarrow> Inr (sol_value out)))"

section \<open>Notions for the statements about the norm\<close>

text \<open>No element of the array is NaN; some element is infinite; every element is zero.\<close>

definition nan_free :: "array \<Rightarrow> bool" where
  "nan_free x = list_all (\<lambda>z. fst z \<noteq> NaN \<and> snd z \<noteq> NaN) (cplx_elems x)"

definition has_inf :: "array \<Rightarrow> bool" where
  "has_inf x = list_ex (\<lambda>z. isinf (fst z) \<or> isinf (snd z)) (cplx_elems x)"

definition all_zero :: "array \<Rightarrow> bool" where
  "all_zero x = list_all (\<lambda>z. fst z = Fin 0 \<and> snd z = Fin 0) (cplx_elems x)"

text \<open>The squared modulus of an element, as the code computes it from its parts.\<close>

definition sq_abs :: "cval \<Rightarrow> fval" where
  "sq_abs z = fadd (fmul (fst z) (fst z)) (fmul (snd z) (snd z))"

text \<open>A scalar one of whose parts is NaN.\<close>

fun scalar_is_nan :: "scalar \<Rightarrow> bool" where
  "scalar_is_nan (RealS v) = (v = NaN)"
| "scalar_is_nan (CplxS z) = (fst z = NaN \<or> snd z = NaN)"

text \<open>A value that is NaN or not below zero.\<close>

definition nn_or_nan :: "fval \<Rightarrow> bool" where
  "nn_or_nan v = (v = NaN \<or> fle (Fin 0) v)"

section \<open>Reference notions for the inner product and the maximum\<close>

text \<open>
  The inner product of two arrays of one size: the sum of the products of the conjugated
  elements of the first with the elements of the second, accumulated at the highest
  precision.
\<close>

definition inner :: "accumulation \<Rightarrow> array \<Rightarrow> array \<Rightarrow> scalar" where
  "inner psum a b =
     (if is_cplx a \<or> is_cplx b
      then (let ps = map2 cmul (map cconj (cplx_elems a)) (cplx_elems b)
            in CplxS (psum Highest (map fst ps), psum Highest (map snd ps)))
      else RealS (psum Highest (map2 fmul (real_elems a) (real_elems b))))"

text \<open>The sum of a list of results from the left, starting from \<open>acc\<close>; the first error ends it.\<close>

fun sum_results :: "scalar \<Rightarrow> (py_error + scalar) list \<Rightarrow> py_error + scalar" where
  "sum_results acc [] = Inr acc"
| "sum_results acc (Inl e # rs) = Inl e"
| "sum_results acc (Inr v # rs) = sum_results (sadd acc v) rs"

text \<open>
  \<open>r\<close> is the maximum of the values \<open>vs\<close>: NaN when one of them is NaN, and otherwise one
  of them that none exceeds.
\<close>

definition is_maximum :: "fval \<Rightarrow> fval list \<Rightarrow> bool" where
  "is_maximum r vs =
     (if NaN \<in> set vs then r = NaN else r \<in> set vs \<and> list_all (\<lambda>v. fle v r) vs)"

definition same_sizes :: "array list \<Rightarrow> array list \<Rightarrow> bool" where
  "same_sizes la lb = list_all (\<lambda>p. size_arr (fst p) = size_arr (snd p)) (zip la lb)"

definition no_empty_leaf :: "pytree \<Rightarrow> bool" where
  "no_empty_leaf x = list_all (\<lambda>l. size_arr l \<noteq> 0) (tree_leaves x)"

section \<open>The invariant of the shape cache\<close>


text \<open>
  The key of a call \<open>(treedef, leaves)\<close>: what \<open>cached_eval_shape\<close> hands to the cached
  function.
\<close>

definition call_key :: "'t \<times> 'd leaf list \<Rightarrow> 'd leaf list \<times> 't" where
  "call_key c = (map u_to_struct (snd c), fst c)"

section \<open>Python integers outside the default integer type\<close>

text \<open>
  The argument is a Python integer that has no place in the default integer type: below
  \<open>-2\<^sup>3\<^sup>1\<close> or above \<open>2\<^sup>3\<^sup>1 - 1\<close>, and in 64-bit mode below \<open>-2\<^sup>6\<^sup>3\<close> or above \<open>2\<^sup>6\<^sup>3 - 1\<close>.
\<close>

fun int_overflows :: "jax_config \<Rightarrow> 'a arraylike \<Rightarrow> bool" where
  "int_overflows cfg (PyIntArg i) =
     (if jax_enable_x64 cfg then i < - (2 ^ 63) \<or> 2 ^ 63 \<le> i else i < - (2 ^ 31) \<or> 2 ^ 31 \<le> i)"
| "int_overflows cfg (ArrayArg a) = False"

text \<open>For the evaluation of examples: a conversion that leaves every element as it is.\<close>

definition keep_elem :: "dtype \<Rightarrow> real \<Rightarrow> real" where
  "keep_elem dt v = v"

section \<open>An example of a differentiable function\<close>

text \<open>
  The function \<open>(a, b) \<mapsto> (a * b, a + b, a)\<close> with its matrix of partial derivatives, for
  the evaluation of the two transformations at a point.
\<close>

definition square_fn :: "unit diff_fun" where
  "square_fn = \<lparr>primal = (\<lambda>x. [x ! 0 * x ! 1, x ! 0 + x ! 1, x ! 0]),
                aux_out = (\<lambda>x. ()),
                deriv = (\<lambda>x. [[x ! 1, x ! 0], [1, 1], [1, 0]])\<rparr>"

section \<open>An example of a traced function\<close>


section \<open>Properties\<close>

lemma finfo_eps_defined: "isl (finfo_eps dt) = (\<not> is_inexact dt)"
  by (cases dt) simp_all

subsection \<open>Rounding to single precision\<close>

lemma floor_log2_inverse_power: "\<lfloor>log 2 \<bar>1 / 2 ^ n :: real\<bar>\<rfloor> = - int n"
proof -
  have "log 2 \<bar>1 / 2 ^ n :: real\<bar> = of_int (- int n)"
    by (simp add: log_divide log_nat_power)
  then show ?thesis by (simp only: floor_of_int)
qed

lemma binary32_exponent_inverse_power:
  "binary32_exponent (1 / 2 ^ n) = max (- 149) (- int n - 23)"
  unfolding binary32_exponent_def floor_log2_inverse_power ..

lemma binary32_exponent_below:
  assumes "r \<noteq> 0" and "\<bar>r\<bar> < 1 / 2 ^ 126"
  shows "binary32_exponent r = - 149"
proof -
  have "\<bar>r\<bar> < 2 powr (- 126)"
    using assms(2) by (simp add: powr_neg_numeral)
  then have "log 2 \<bar>r\<bar> < - 126"
    using assms(1) by (simp add: log_less_iff)
  then have "\<lfloor>log 2 \<bar>r\<bar>\<rfloor> < - 126"
    by (simp add: floor_less_iff)
  then show ?thesis unfolding binary32_exponent_def by linarith
qed

lemma round_half_even_int: "round_half_even (of_int m) = m"
  by (simp add: round_half_even_def)

lemma round_half_even_small: "0 \<le> q \<Longrightarrow> q < 1 / 2 \<Longrightarrow> round_half_even q = 0"
proof -
  assume a: "0 \<le> q" "q < 1 / 2"
  then have "\<lfloor>q\<rfloor> = 0" by (simp add: floor_eq_iff)
  with a show ?thesis by (simp add: round_half_even_def)
qed

lemma round_half_even_down:
  "of_int f \<le> q \<Longrightarrow> q < of_int f + 1 / 2 \<Longrightarrow> round_half_even q = f"
proof -
  assume a: "of_int f \<le> q" "q < of_int f + 1 / 2"
  then have "\<lfloor>q\<rfloor> = f" by (simp add: floor_eq_iff)
  with a show ?thesis by (simp add: round_half_even_def)
qed

lemma round_binary32_eval:
  assumes "r \<noteq> 0" and "binary32_exponent r = e" and "round_half_even (r / 2 powi e) = m"
    and "\<bar>of_int m * 2 powi e :: real\<bar> < 2 ^ 128"
  shows "round_binary32 r = Fin (of_int m * 2 powi e)"
  using assms by (simp add: round_binary32_def Let_def)

text \<open>
  The machine epsilon \<open>2\<^sup>-\<^sup>2\<^sup>3\<close> and \<open>1/4\<close> are numbers of the format; \<open>10\<^sup>-\<^sup>5\<^sup>0\<close> is rounded
  to \<open>0\<close>, and \<open>1/100\<close> to \<open>10737418 * 2\<^sup>-\<^sup>3\<^sup>0\<close>.
\<close>

lemma to_float32_eps: "to_float32 (Fin (1 / 2 ^ 23)) = Fin (1 / 2 ^ 23)"
proof -
  have e: "binary32_exponent (1 / 2 ^ 23) = - 46"
    unfolding binary32_exponent_inverse_power by simp
  have "(1 / 2 ^ 23 :: real) / 2 powi (- 46) = of_int (2 ^ 23)"
    by simp
  then have m: "round_half_even ((1 / 2 ^ 23 :: real) / 2 powi (- 46)) = 2 ^ 23"
    by (simp only: round_half_even_int)
  have "round_binary32 (1 / 2 ^ 23) = Fin (of_int (2 ^ 23) * 2 powi (- 46))"
    by (rule round_binary32_eval [OF _ e m]) simp_all
  then show ?thesis by simp
qed

lemma to_float32_quarter: "to_float32 (Fin (1 / 2 ^ 2)) = Fin (1 / 2 ^ 2)"
proof -
  have e: "binary32_exponent (1 / 2 ^ 2) = - 25"
    unfolding binary32_exponent_inverse_power by simp
  have "(1 / 2 ^ 2 :: real) / 2 powi (- 25) = of_int (2 ^ 23)"
    by simp
  then have m: "round_half_even ((1 / 2 ^ 2 :: real) / 2 powi (- 25)) = 2 ^ 23"
    by (simp only: round_half_even_int)
  have "round_binary32 (1 / 2 ^ 2) = Fin (of_int (2 ^ 23) * 2 powi (- 25))"
    by (rule round_binary32_eval [OF _ e m]) simp_all
  then show ?thesis by simp
qed

lemma to_float32_tiny: "to_float32 (Fin (1 / 10 ^ 50)) = Fin 0"
proof -
  have e: "binary32_exponent (1 / 10 ^ 50) = - 149"
    by (rule binary32_exponent_below) simp_all
  have m: "round_half_even ((1 / 10 ^ 50 :: real) / 2 powi (- 149)) = 0"
    by (rule round_half_even_small) simp_all
  have "round_binary32 (1 / 10 ^ 50) = Fin (of_int 0 * 2 powi (- 149))"
    by (rule round_binary32_eval [OF _ e m]) simp_all
  then show ?thesis by simp
qed

lemma binary32_exponent_hundredth: "binary32_exponent (1 / 100) = - 30"
proof -
  have "\<lfloor>log 2 \<bar>1 / 100 :: real\<bar>\<rfloor> = - 7"
    by (subst floor_log_eq_powr_iff) (simp_all add: powr_neg_numeral)
  then show ?thesis by (simp add: binary32_exponent_def)
qed

lemma to_float32_hundredth: "to_float32 (Fin (1 / 100)) = Fin (10737418 / 2 ^ 30)"
proof -
  have m: "round_half_even ((1 / 100 :: real) / 2 powi (- 30)) = 10737418"
    by (rule round_half_even_down) simp_all
  have "round_binary32 (1 / 100) = Fin (of_int 10737418 * 2 powi (- 30))"
    by (rule round_binary32_eval [OF _ binary32_exponent_hundredth m]) simp_all
  then show ?thesis by simp
qed

subsection \<open>The rank tolerance\<close>

text \<open>
  Claim C3, as amended. For a type \<open>dt\<close> with machine epsilon \<open>eps\<close>: without a tolerance
  (\<^verbatim>\<open>rcond is None\<close>) \<open>resolve_rcond\<close> returns \<open>eps * max n m\<close>; a negative tolerance is
  no error, the machine epsilon is returned in its place, converted to the floating type
  of the result; a tolerance that is not negative (zero, positive or plus infinity) is
  returned converted to that type, so it is returned unchanged exactly when the
  conversion leaves it unchanged.
\<close>

theorem resolve_rcond_cases:
  assumes "finfo_eps dt = Inr eps"
  shows "resolve_rcond astype None n m dt = Inr (Fin (eps * of_int (max n m)))
       \<and> (fless r (Fin 0) \<longrightarrow> resolve_rcond astype (Some r) n m dt = Inr (astype (Fin eps)))
       \<and> (fle (Fin 0) r \<longrightarrow> resolve_rcond astype (Some r) n m dt = Inr (astype r))
       \<and> (fle (Fin 0) r \<longrightarrow> (resolve_rcond astype (Some r) n m dt = Inr r) = (astype r = r))"
proof -
  have a: "resolve_rcond astype None n m dt = Inr (Fin (eps * of_int (max n m)))"
    using assms by (simp add: resolve_rcond_def)
  have b: "fless r (Fin 0) \<Longrightarrow> resolve_rcond astype (Some r) n m dt = Inr (astype (Fin eps))"
    using assms by (simp add: resolve_rcond_def where_select_def)
  have c: "fle (Fin 0) r \<Longrightarrow> resolve_rcond astype (Some r) n m dt = Inr (astype r)"
    using assms by (cases r) (auto simp add: resolve_rcond_def where_select_def fle_def)
  from a b c show ?thesis by auto
qed

theorem resolve_rcond_cases_witness:
  "finfo_eps Float32 = Inr (1 / 2 ^ 23)
   \<and> resolve_rcond to_float32 None 3 5 Float32 = Inr (Fin (5 / 2 ^ 23))
   \<and> fless (Fin (- 1)) (Fin 0)
   \<and> resolve_rcond to_float32 (Some (Fin (- 1))) 3 5 Float32 = Inr (Fin (1 / 2 ^ 23))
   \<and> fle (Fin 0) (Fin (1 / 2 ^ 2))
   \<and> resolve_rcond to_float32 (Some (Fin (1 / 2 ^ 2))) 3 5 Float32 = Inr (Fin (1 / 2 ^ 2))"
proof -
  have e: "finfo_eps Float32 = Inr (1 / 2 ^ 23)" by simp
  have n: "fless (Fin (- 1)) (Fin 0)" by simp
  have p: "fle (Fin 0) (Fin (1 / 2 ^ 2))" by (simp add: fle_def)
  from resolve_rcond_cases [OF e, of to_float32 3 5 "Fin (- 1)"] n
  have a: "resolve_rcond to_float32 None 3 5 Float32 = Inr (Fin (5 / 2 ^ 23))"
    and "resolve_rcond to_float32 (Some (Fin (- 1))) 3 5 Float32 = Inr (to_float32 (Fin (1 / 2 ^ 23)))"
    by simp_all
  then have b: "resolve_rcond to_float32 (Some (Fin (- 1))) 3 5 Float32 = Inr (Fin (1 / 2 ^ 23))"
    by (simp only: to_float32_eps)
  from resolve_rcond_cases [OF e, of to_float32 3 5 "Fin (1 / 2 ^ 2)"] p
  have "resolve_rcond to_float32 (Some (Fin (1 / 2 ^ 2))) 3 5 Float32 = Inr (to_float32 (Fin (1 / 2 ^ 2)))"
    by blast
  then have c: "resolve_rcond to_float32 (Some (Fin (1 / 2 ^ 2))) 3 5 Float32 = Inr (Fin (1 / 2 ^ 2))"
    by (simp only: to_float32_quarter)
  show ?thesis using e n p a b c by blast
qed

text \<open>
  Claim C3 as it was stated, "any non-negative supplied rcond is returned unchanged",
  fails in single precision: the tolerance \<open>10\<^sup>-\<^sup>5\<^sup>0\<close> is not negative and is returned as
  \<open>0\<close>, and \<open>1/100\<close> is returned as the number \<open>10737418 * 2\<^sup>-\<^sup>3\<^sup>0\<close> of the format next to
  it.
\<close>

theorem resolve_rcond_cast_counterexample:
  "fle (Fin 0) (Fin (1 / 10 ^ 50))
   \<and> resolve_rcond to_float32 (Some (Fin (1 / 10 ^ 50))) 3 5 Float32 = Inr (Fin 0)
   \<and> Fin 0 \<noteq> Fin (1 / 10 ^ 50)
   \<and> fle (Fin 0) (Fin (1 / 100))
   \<and> resolve_rcond to_float32 (Some (Fin (1 / 100))) 3 5 Float32 = Inr (Fin (10737418 / 2 ^ 30))
   \<and> Fin (10737418 / 2 ^ 30) \<noteq> Fin (1 / 100)"
proof -
  have a: "resolve_rcond to_float32 (Some (Fin (1 / 10 ^ 50))) 3 5 Float32
             = Inr (to_float32 (Fin (1 / 10 ^ 50)))"
    by (simp add: resolve_rcond_def where_select_def)
  have b: "resolve_rcond to_float32 (Some (Fin (1 / 100))) 3 5 Float32
             = Inr (to_float32 (Fin (1 / 100)))"
    by (simp add: resolve_rcond_def where_select_def)
  have c: "fle (Fin 0) (Fin (1 / 10 ^ 50))" "fle (Fin 0) (Fin (1 / 100))"
    by (simp_all add: fle_def)
  have d: "Fin 0 \<noteq> Fin (1 / 10 ^ 50)" "Fin (10737418 / 2 ^ 30) \<noteq> Fin (1 / 100)"
    by simp_all
  show ?thesis
    using a b c d by (simp only: to_float32_tiny to_float32_hundredth) blast
qed
subsection \<open>The two-norm\<close>

lemma map2_same: "map2 f xs xs = map (\<lambda>x. f x x) xs"
  by (induction xs) auto

lemma map2_map_r: "map2 f xs (map g xs) = map (\<lambda>x. f x (g x)) xs"
  by (induction xs) auto

lemma re_cmul_cconj: "fst (cmul z (cconj z)) = sq_abs z"
  by (cases "fst z"; cases "snd z") (simp_all add: cmul_def cconj_def fsub_def inf_of_sign_def sq_abs_def)

lemma fmul_self_sq_abs: "fmul a a = sq_abs (of_real_c a)"
  by (cases a) (simp_all add: sq_abs_def of_real_c_def inf_of_sign_def)

lemma x_sq_elems: "real_elems (mul_arr x (conj_arr x)) = map sq_abs (cplx_elems x)"
proof (cases x)
  case (RealArr xs)
  then show ?thesis by (simp add: map2_same fmul_self_sq_abs)
next
  case (CplxArr zs)
  then show ?thesis by (simp add: map2_map_r re_cmul_cconj)
qed

lemma u_two_norm_eq: "u_two_norm x = fsqrt (fsum (map sq_abs (cplx_elems x)))"
  by (simp add: u_two_norm_def x_sq_elems)

text \<open>The sign of the result, and the propagation of NaN.\<close>


lemma fle0_iff: "fle (Fin 0) v = (case v of Fin a \<Rightarrow> 0 \<le> a | PInf \<Rightarrow> True | _ \<Rightarrow> False)"
  by (cases v) (auto simp add: fle_def)

lemma nn_or_nan_sq_abs: "nn_or_nan (sq_abs z)"
  by (cases "fst z"; cases "snd z") (simp_all add: sq_abs_def nn_or_nan_def fle0_iff inf_of_sign_def)

lemma nn_or_nan_fadd: "nn_or_nan a \<Longrightarrow> nn_or_nan b \<Longrightarrow> nn_or_nan (fadd a b)"
  by (cases a; cases b) (simp_all add: nn_or_nan_def fle0_iff)

lemma nn_or_nan_fsum: "list_all nn_or_nan vs \<Longrightarrow> nn_or_nan (fsum vs)"
  by (induction vs) (simp_all add: fsum_def nn_or_nan_fadd, simp add: nn_or_nan_def fle0_iff)

lemma nn_or_nan_fsqrt: "nn_or_nan a \<Longrightarrow> nn_or_nan (fsqrt a)"
  by (cases a) (simp_all add: nn_or_nan_def fle0_iff)

lemma u_two_norm_nn_or_nan: "nn_or_nan (u_two_norm x)"
  unfolding u_two_norm_eq
  by (intro nn_or_nan_fsqrt nn_or_nan_fsum) (simp add: list_all_iff nn_or_nan_sq_abs)

lemma nn_or_nan_not_less: "nn_or_nan v \<Longrightarrow> \<not> fless v (Fin 0)"
  by (cases v) (simp_all add: nn_or_nan_def fle0_iff)

lemma sq_abs_nonneg: "fst z \<noteq> NaN \<Longrightarrow> snd z \<noteq> NaN \<Longrightarrow> fle (Fin 0) (sq_abs z)"
  by (cases "fst z"; cases "snd z") (simp_all add: sq_abs_def fle0_iff inf_of_sign_def)

lemma fadd_nonneg: "fle (Fin 0) a \<Longrightarrow> fle (Fin 0) b \<Longrightarrow> fle (Fin 0) (fadd a b)"
  by (cases a; cases b) (simp_all add: fle0_iff)

lemma fsum_nonneg: "list_all (\<lambda>v. fle (Fin 0) v) vs \<Longrightarrow> fle (Fin 0) (fsum vs)"
  by (induction vs) (simp_all add: fsum_def fadd_nonneg, simp add: fle0_iff)

lemma fsqrt_nonneg: "fle (Fin 0) a \<Longrightarrow> fle (Fin 0) (fsqrt a)"
  by (cases a) (simp_all add: fle0_iff)

lemma u_two_norm_nonneg: "nan_free x \<Longrightarrow> fle (Fin 0) (u_two_norm x)"
  unfolding u_two_norm_eq
  by (intro fsqrt_nonneg fsum_nonneg) (simp add: list_all_iff nan_free_def sq_abs_nonneg)

lemma fsum_nan: "NaN \<in> set vs \<Longrightarrow> fsum vs = NaN"
proof (induction vs)
  case Nil then show ?case by simp
next
  case (Cons v vs)
  show ?case
  proof (cases "v = NaN")
    case True then show ?thesis by (simp add: fsum_def)
  next
    case False
    with Cons have "fsum vs = NaN" by simp
    then show ?thesis by (cases v) (simp_all add: fsum_def)
  qed
qed

lemma sq_abs_nan: "fst z = NaN \<or> snd z = NaN \<Longrightarrow> sq_abs z = NaN"
  by (cases "fst z"; cases "snd z") (simp_all add: sq_abs_def inf_of_sign_def)

lemma u_two_norm_nan: "\<not> nan_free x \<Longrightarrow> u_two_norm x = NaN"
proof -
  assume "\<not> nan_free x"
  then obtain z where z: "z \<in> set (cplx_elems x)" "fst z = NaN \<or> snd z = NaN"
    by (auto simp add: nan_free_def list_all_iff)
  then have "NaN \<in> set (map sq_abs (cplx_elems x))"
    using sq_abs_nan[of z] by (metis image_eqI list.set_map)
  then show ?thesis by (simp add: u_two_norm_eq fsum_nan)
qed

lemma cplx_elems_concat_real:
  "\<not> list_ex is_cplx ls \<Longrightarrow> map of_real_c (concat (map real_elems ls)) = concat (map cplx_elems ls)"
proof (induction ls)
  case Nil then show ?case by simp
next
  case (Cons a ls) then show ?case by (cases a) simp_all
qed

lemma cplx_elems_ravel: "cplx_elems (ravel_pytree x) = concat (map cplx_elems (tree_leaves x))"
  by (simp add: ravel_pytree_def Let_def cplx_elems_concat_real)

lemma size_arr_cplx_elems: "size_arr a = length (cplx_elems a)"
  by (cases a) simp_all

lemma size_ravel: "size_arr (ravel_pytree x) = sum_list (map size_arr (tree_leaves x))"
  by (simp add: size_arr_cplx_elems[of "ravel_pytree x"] cplx_elems_ravel length_concat comp_def
        size_arr_cplx_elems[symmetric])

text \<open>An infinite element makes the norm infinite, and a vector of zeros has the norm zero.\<close>

lemma sq_abs_inf:
  "isinf (fst z) \<or> isinf (snd z) \<Longrightarrow> fst z \<noteq> NaN \<Longrightarrow> snd z \<noteq> NaN \<Longrightarrow> sq_abs z = PInf"
  by (cases "fst z"; cases "snd z") (simp_all add: sq_abs_def inf_of_sign_def)

lemma fsum_Cons: "fsum (v # vs) = fadd v (fsum vs)"
  by (simp add: fsum_def)

lemma fsum_pinf:
  "list_all (\<lambda>v. fle (Fin 0) v) vs \<Longrightarrow> PInf \<in> set vs \<Longrightarrow> fsum vs = PInf"
proof (induction vs)
  case Nil then show ?case by simp
next
  case (Cons v vs)
  have rest: "fle (Fin 0) (fsum vs)" using Cons.prems(1) by (simp add: fsum_nonneg)
  show ?case
  proof (cases "v = PInf")
    case True
    with rest show ?thesis by (cases "fsum vs") (simp_all add: fsum_Cons fle0_iff)
  next
    case False
    with Cons have "fsum vs = PInf" by simp
    moreover have "fle (Fin 0) v" using Cons.prems(1) by simp
    ultimately show ?thesis by (cases v) (simp_all add: fsum_Cons fle0_iff)
  qed
qed

lemma u_two_norm_inf: "has_inf x \<Longrightarrow> nan_free x \<Longrightarrow> u_two_norm x = PInf"
proof -
  assume h: "has_inf x" and n: "nan_free x"
  from h obtain z where z: "z \<in> set (cplx_elems x)" "isinf (fst z) \<or> isinf (snd z)"
    by (auto simp add: has_inf_def list_ex_iff)
  with n have "sq_abs z = PInf" by (simp add: nan_free_def list_all_iff sq_abs_inf)
  with z(1) have "PInf \<in> set (map sq_abs (cplx_elems x))"
    by (metis image_eqI list.set_map)
  moreover have "list_all (\<lambda>v. fle (Fin 0) v) (map sq_abs (cplx_elems x))"
    using n by (simp add: list_all_iff nan_free_def sq_abs_nonneg)
  ultimately show ?thesis by (simp add: u_two_norm_eq fsum_pinf)
qed

lemma fsum_zeros: "list_all (\<lambda>v. v = Fin 0) vs \<Longrightarrow> fsum vs = Fin 0"
  by (induction vs) (simp_all add: fsum_def)

lemma u_two_norm_zero: "all_zero x \<Longrightarrow> u_two_norm x = Fin 0"
proof -
  assume "all_zero x"
  then have "list_all (\<lambda>v. v = Fin 0) (map sq_abs (cplx_elems x))"
    by (auto simp add: all_zero_def list_all_iff sq_abs_def)
  then show ?thesis by (simp add: u_two_norm_eq fsum_zeros)
qed

text \<open>
  Claim C5. \<open>two_norm x\<close> works on the one vector \<open>ravel_pytree x\<close>, which holds the elements
  of all leaves of \<open>x\<close> in order. When the vector has size 0, the result is the literal \<open>0\<close>
  and not a call of the function with the custom derivative rule. Otherwise it is the
  value of that call, which is the Euclidean norm as the code computes it: the square
  root of the sum of the squared moduli of the elements of all leaves.
\<close>

theorem two_norm_flatten:
  "cplx_elems (ravel_pytree x) = concat (map cplx_elems (tree_leaves x))
   \<and> size_arr (ravel_pytree x) = sum_list (map size_arr (tree_leaves x))
   \<and> (size_arr (ravel_pytree x) = 0 \<longrightarrow> two_norm x = Literal (Fin 0))
   \<and> (size_arr (ravel_pytree x) \<noteq> 0 \<longrightarrow>
        two_norm x = Custom_call (u_two_norm (ravel_pytree x))
        \<and> two_norm x =
            Custom_call (fsqrt (fsum (map sq_abs (concat (map cplx_elems (tree_leaves x)))))))"
proof (intro conjI impI)
  show "cplx_elems (ravel_pytree x) = concat (map cplx_elems (tree_leaves x))"
    by (rule cplx_elems_ravel)
  show "size_arr (ravel_pytree x) = sum_list (map size_arr (tree_leaves x))"
    by (rule size_ravel)
  show "size_arr (ravel_pytree x) = 0 \<Longrightarrow> two_norm x = Literal (Fin 0)"
    by (simp add: two_norm_def)
  show "size_arr (ravel_pytree x) \<noteq> 0 \<Longrightarrow> two_norm x = Custom_call (u_two_norm (ravel_pytree x))"
    by (simp add: two_norm_def)
  show "size_arr (ravel_pytree x) \<noteq> 0 \<Longrightarrow>
        two_norm x = Custom_call (fsqrt (fsum (map sq_abs (concat (map cplx_elems (tree_leaves x))))))"
    by (simp add: two_norm_def u_two_norm_eq cplx_elems_ravel)
qed

lemma ravel_empty: "ravel_pytree (Node []) = RealArr []"
  by (simp add: ravel_pytree_def)

lemma ravel_34:
  "ravel_pytree (Node [Leaf (RealArr [Fin 3]), Node [Leaf (RealArr [Fin 4])]]) = RealArr [Fin 3, Fin 4]"
  by (simp add: ravel_pytree_def)

theorem two_norm_flatten_witness:
  "size_arr (ravel_pytree (Node [])) = 0
   \<and> two_norm (Node []) = Literal (Fin 0)
   \<and> size_arr (ravel_pytree (Node [Leaf (RealArr [Fin 3]), Node [Leaf (RealArr [Fin 4])]])) \<noteq> 0
   \<and> two_norm (Node [Leaf (RealArr [Fin 3]), Node [Leaf (RealArr [Fin 4])]]) = Custom_call (Fin 5)"
proof -
  let ?x = "Node [Leaf (RealArr [Fin 3]), Node [Leaf (RealArr [Fin 4])]]"
  have e: "size_arr (ravel_pytree (Node [])) = 0" by (simp add: ravel_empty)
  have s: "size_arr (ravel_pytree ?x) \<noteq> 0" by (simp add: ravel_34)
  have a: "two_norm (Node []) = Literal (Fin 0)"
    using two_norm_flatten [of "Node []"] e by blast
  have "two_norm ?x =
          Custom_call (fsqrt (fsum (map sq_abs (concat (map cplx_elems (tree_leaves ?x))))))"
    using two_norm_flatten [of ?x] s by blast
  then have b: "two_norm ?x = Custom_call (Fin 5)"
    by (simp add: sq_abs_def of_real_c_def fsum_def)
  show ?thesis using e s a b by blast
qed

text \<open>
  Claim C1. For a vector \<open>x\<close> and a tangent \<open>tx\<close> of the same size, with \<open>d\<close> the value of
  \<^verbatim>\<open>jnp.dot(x, tx)\<close>, the derivative rule returns as tangent output \<open>d / norm x\<close>, except
  when the norm is \<open>0\<close> or infinite: then the tangent output is exactly zero, which is no
  NaN, whatever \<open>d\<close> is. The primal output is in every case the value of \<^verbatim>\<open>_two_norm(x)\<close>,
  the square root of the sum of the squared moduli of the elements; the override of the
  derivative leaves it as it is. In particular it is the infinite norm when an element is
  infinite and none is NaN, and the norm zero for a vector of zeros.
\<close>

theorem two_norm_jvp_rule:
  assumes "dot psum x tx = Inr d"
  shows "u_two_norm_jvp psum x tx =
           Inr (u_two_norm x,
                if feq (u_two_norm x) (Fin 0) \<or> isinf (u_two_norm x) then zero_like d
                else sdiv d (u_two_norm x))
       \<and> \<not> scalar_is_nan (zero_like d)
       \<and> u_two_norm x = fsqrt (fsum (map sq_abs (cplx_elems x)))
       \<and> (has_inf x \<and> nan_free x \<longrightarrow> u_two_norm x = PInf)
       \<and> (all_zero x \<longrightarrow> u_two_norm x = Fin 0)"
proof -
  have z: "sdiv (zero_like d) (Fin 1) = zero_like d"
    by (cases d) simp_all
  have n: "\<not> scalar_is_nan (zero_like d)"
    by (cases d) simp_all
  have r: "u_two_norm_jvp psum x tx =
           Inr (u_two_norm x,
                if feq (u_two_norm x) (Fin 0) \<or> isinf (u_two_norm x) then zero_like d
                else sdiv d (u_two_norm x))"
    using assms by (simp add: u_two_norm_jvp_def Let_def where_select_def z)
  show ?thesis
    using r n u_two_norm_eq [of x] u_two_norm_inf [of x] u_two_norm_zero [of x] by blast
qed

lemma norm_34: "u_two_norm (RealArr [Fin 3, Fin 4]) = Fin 5"
  by (simp add: u_two_norm_def fsum_def)

theorem two_norm_jvp_rule_witness:
  "dot exact_sum (RealArr [Fin 3, Fin 4]) (RealArr [Fin 5, Fin 0]) = Inr (RealS (Fin 15))
   \<and> u_two_norm_jvp exact_sum (RealArr [Fin 3, Fin 4]) (RealArr [Fin 5, Fin 0])
       = Inr (Fin 5, RealS (Fin 3))
   \<and> dot exact_sum (RealArr [Fin 0, Fin 0]) (RealArr [Fin 1, Fin 2]) = Inr (RealS (Fin 0))
   \<and> all_zero (RealArr [Fin 0, Fin 0])
   \<and> u_two_norm_jvp exact_sum (RealArr [Fin 0, Fin 0]) (RealArr [Fin 1, Fin 2])
       = Inr (Fin 0, RealS (Fin 0))
   \<and> dot exact_sum (RealArr [PInf, Fin 1]) (RealArr [Fin 0, Fin 1]) = Inr (RealS NaN)
   \<and> has_inf (RealArr [PInf, Fin 1]) \<and> nan_free (RealArr [PInf, Fin 1])
   \<and> u_two_norm_jvp exact_sum (RealArr [PInf, Fin 1]) (RealArr [Fin 0, Fin 1])
       = Inr (PInf, RealS (Fin 0))"
proof -
  have d1: "dot exact_sum (RealArr [Fin 3, Fin 4]) (RealArr [Fin 5, Fin 0]) = Inr (RealS (Fin 15))"
    by (simp add: dot_def dot_general_def exact_sum_def fsum_def)
  have d2: "dot exact_sum (RealArr [Fin 0, Fin 0]) (RealArr [Fin 1, Fin 2]) = Inr (RealS (Fin 0))"
    by (simp add: dot_def dot_general_def exact_sum_def fsum_def)
  have d3: "dot exact_sum (RealArr [PInf, Fin 1]) (RealArr [Fin 0, Fin 1]) = Inr (RealS NaN)"
    by (simp add: dot_def dot_general_def exact_sum_def fsum_def inf_of_sign_def)
  have z2: "all_zero (RealArr [Fin 0, Fin 0])"
    by (simp add: all_zero_def of_real_c_def)
  have h3: "has_inf (RealArr [PInf, Fin 1])"
    by (simp add: has_inf_def of_real_c_def)
  have f3: "nan_free (RealArr [PInf, Fin 1])"
    by (simp add: nan_free_def of_real_c_def)
  have n2: "u_two_norm (RealArr [Fin 0, Fin 0]) = Fin 0"
    using two_norm_jvp_rule [OF d2] z2 by blast
  have n3: "u_two_norm (RealArr [PInf, Fin 1]) = PInf"
    using two_norm_jvp_rule [OF d3] h3 f3 by blast
  have j1: "u_two_norm_jvp exact_sum (RealArr [Fin 3, Fin 4]) (RealArr [Fin 5, Fin 0]) =
           Inr (u_two_norm (RealArr [Fin 3, Fin 4]),
                if feq (u_two_norm (RealArr [Fin 3, Fin 4])) (Fin 0)
                   \<or> isinf (u_two_norm (RealArr [Fin 3, Fin 4]))
                then zero_like (RealS (Fin 15))
                else sdiv (RealS (Fin 15)) (u_two_norm (RealArr [Fin 3, Fin 4])))"
    using two_norm_jvp_rule [OF d1] by blast
  have j2: "u_two_norm_jvp exact_sum (RealArr [Fin 0, Fin 0]) (RealArr [Fin 1, Fin 2]) =
           Inr (u_two_norm (RealArr [Fin 0, Fin 0]),
                if feq (u_two_norm (RealArr [Fin 0, Fin 0])) (Fin 0)
                   \<or> isinf (u_two_norm (RealArr [Fin 0, Fin 0]))
                then zero_like (RealS (Fin 0))
                else sdiv (RealS (Fin 0)) (u_two_norm (RealArr [Fin 0, Fin 0])))"
    using two_norm_jvp_rule [OF d2] by blast
  have j3: "u_two_norm_jvp exact_sum (RealArr [PInf, Fin 1]) (RealArr [Fin 0, Fin 1]) =
           Inr (u_two_norm (RealArr [PInf, Fin 1]),
                if feq (u_two_norm (RealArr [PInf, Fin 1])) (Fin 0)
                   \<or> isinf (u_two_norm (RealArr [PInf, Fin 1]))
                then zero_like (RealS NaN)
                else sdiv (RealS NaN) (u_two_norm (RealArr [PInf, Fin 1])))"
    using two_norm_jvp_rule [OF d3] by blast
  have r1: "u_two_norm_jvp exact_sum (RealArr [Fin 3, Fin 4]) (RealArr [Fin 5, Fin 0])
              = Inr (Fin 5, RealS (Fin 3))"
    using j1 by (simp add: norm_34)
  have r2: "u_two_norm_jvp exact_sum (RealArr [Fin 0, Fin 0]) (RealArr [Fin 1, Fin 2])
              = Inr (Fin 0, RealS (Fin 0))"
    using j2 by (simp add: n2)
  have r3: "u_two_norm_jvp exact_sum (RealArr [PInf, Fin 1]) (RealArr [Fin 0, Fin 1])
              = Inr (PInf, RealS (Fin 0))"
    using j3 by (simp add: n3)
  show ?thesis using d1 r1 d2 z2 r2 d3 h3 f3 r3 by blast
qed

text \<open>
  Claim C9, as amended. For a container with at least one element, of real or of complex
  leaves, \<open>two_norm\<close> returns a real value (an \<open>fval\<close>, the square root of the sum of the
  squared moduli of the elements, never a complex number) that is never below zero: it is
  \<open>\<ge> 0\<close> when no element is NaN, and it is NaN when an element is NaN.
\<close>

theorem two_norm_real_nonneg:
  assumes "size_arr (ravel_pytree x) \<noteq> 0"
  shows "two_norm x = Custom_call (fsqrt (fsum (map sq_abs (cplx_elems (ravel_pytree x)))))
       \<and> \<not> fless (value_of (two_norm x)) (Fin 0)
       \<and> (nan_free (ravel_pytree x) \<longrightarrow> fle (Fin 0) (value_of (two_norm x)))
       \<and> (\<not> nan_free (ravel_pytree x) \<longrightarrow> value_of (two_norm x) = NaN)"
  using assms
  by (simp add: two_norm_def Let_def u_two_norm_nonneg u_two_norm_nan
        nn_or_nan_not_less[OF u_two_norm_nn_or_nan] u_two_norm_eq[symmetric])

theorem two_norm_real_nonneg_witness:
  "size_arr (ravel_pytree (Node [Leaf (CplxArr [(Fin 3, Fin 4)])])) \<noteq> 0
   \<and> nan_free (ravel_pytree (Node [Leaf (CplxArr [(Fin 3, Fin 4)])]))
   \<and> two_norm (Node [Leaf (CplxArr [(Fin 3, Fin 4)])]) = Custom_call (Fin 5)
   \<and> fle (Fin 0) (Fin 5)
   \<and> size_arr (ravel_pytree (Leaf (RealArr [NaN]))) \<noteq> 0
   \<and> \<not> nan_free (ravel_pytree (Leaf (RealArr [NaN])))
   \<and> value_of (two_norm (Leaf (RealArr [NaN]))) = NaN"
proof -
  let ?x = "Node [Leaf (CplxArr [(Fin 3, Fin 4)])]"
  let ?y = "Leaf (RealArr [NaN])"
  have rx: "ravel_pytree ?x = CplxArr [(Fin 3, Fin 4)]" by (simp add: ravel_pytree_def)
  have ry: "ravel_pytree ?y = RealArr [NaN]" by (simp add: ravel_pytree_def)
  have s: "size_arr (ravel_pytree ?x) \<noteq> 0" by (simp add: rx)
  have n: "nan_free (ravel_pytree ?x)" by (simp add: rx nan_free_def)
  have sy: "size_arr (ravel_pytree ?y) \<noteq> 0" by (simp add: ry)
  have ny: "\<not> nan_free (ravel_pytree ?y)" by (simp add: ry nan_free_def of_real_c_def)
  have a: "two_norm ?x = Custom_call (Fin 5)"
    using two_norm_real_nonneg [OF s] by (simp add: rx sq_abs_def fsum_def)
  have "fle (Fin 0) (value_of (two_norm ?x))"
    using two_norm_real_nonneg [OF s] n by blast
  then have b: "fle (Fin 0) (Fin 5)"
    by (simp only: a value_of.simps)
  have c: "value_of (two_norm ?y) = NaN"
    using two_norm_real_nonneg [OF sy] ny by blast
  show ?thesis using s n a b sy ny c by blast
qed

text \<open>
  Claim C9 as it was stated, "for every non-empty container the result is a non-negative
  scalar", fails on a container that holds a NaN: the result is NaN, and NaN is not
  \<open>\<ge> 0\<close>.
\<close>

theorem two_norm_nan_counterexample:
  "size_arr (ravel_pytree (Leaf (RealArr [NaN]))) \<noteq> 0
   \<and> two_norm (Leaf (RealArr [NaN])) = Custom_call NaN
   \<and> \<not> fle (Fin 0) (value_of (two_norm (Leaf (RealArr [NaN]))))"
  by (simp add: two_norm_def ravel_pytree_def u_two_norm_def fsum_def fle_def)

subsection \<open>The inner product of containers\<close>

lemma cconj_of_real_c: "cconj (of_real_c a) = of_real_c a"
  by (simp add: cconj_def of_real_c_def)

lemma cconj_comp_of_real_c: "cconj \<circ> of_real_c = of_real_c"
  by (rule ext) (simp add: cconj_of_real_c)

lemma vdot_same_size: "size_arr a = size_arr b \<Longrightarrow> vdot psum Highest a b = Inr (inner psum a b)"
  by (cases a; cases b) (simp_all add: vdot_def dot_general_def inner_def cconj_comp_of_real_c Let_def)

lemma vdot_other_size: "size_arr a \<noteq> size_arr b \<Longrightarrow> vdot psum p a b = Inl DotShapeError"
  by (cases a; cases b) (simp_all add: vdot_def dot_general_def)

lemma sum_vdots_results:
  "sum_vdots psum acc ps = sum_results acc (map (\<lambda>p. vdot psum Highest (fst p) (snd p)) ps)"
  by (induction psum acc ps rule: sum_vdots.induct) (simp_all split: sum.splits)

lemma sum_vdots_same_sizes:
  "list_all (\<lambda>p. size_arr (fst p) = size_arr (snd p)) ps \<Longrightarrow>
   sum_vdots psum acc ps = Inr (foldl sadd acc (map (\<lambda>p. inner psum (fst p) (snd p)) ps))"
  by (induction psum acc ps rule: sum_vdots.induct) (simp_all add: vdot_same_size)

lemma sum_vdots_other_sizes:
  "\<not> list_all (\<lambda>p. size_arr (fst p) = size_arr (snd p)) ps \<Longrightarrow>
   sum_vdots psum acc ps = Inl DotShapeError"
proof (induction psum acc ps rule: sum_vdots.induct)
  case (1 psum acc) then show ?case by simp
next
  case (2 psum acc ai bi rest)
  show ?case
  proof (cases "size_arr ai = size_arr bi")
    case True
    with 2 show ?thesis by (simp add: vdot_same_size)
  next
    case False
    then show ?thesis by (simp add: vdot_other_size)
  qed
qed

text \<open>
  The precision asked for reaches the accumulation: with the accumulation \<open>coarse_sum\<close>
  the inner product of \<open>[1/2, 1/2]\<close> and \<open>[1, 1]\<close> is \<open>1\<close> at the highest precision and \<open>0\<close>
  at the default one.
\<close>

lemma vdot_precision_matters:
  "vdot coarse_sum Highest (RealArr [Fin (1/2), Fin (1/2)]) (RealArr [Fin 1, Fin 1]) = Inr (RealS (Fin 1))
   \<and> vdot coarse_sum Default (RealArr [Fin (1/2), Fin (1/2)]) (RealArr [Fin 1, Fin 1]) = Inr (RealS (Fin 0))"
  by (simp add: vdot_def dot_general_def coarse_sum_def fsum_def)

text \<open>
  Claim C6, as amended. When the two containers have different numbers of leaves,
  \<open>tree_dot\<close> fails (the assertion). When the numbers agree, its result is the sum, from the
  left and starting from \<open>0\<close>, of the inner products \<^verbatim>\<open>vdot\<close> of corresponding leaves, each
  accumulated at the highest precision whatever the accumulation \<open>psum\<close> of the backend
  is: the sum of the \<open>inner\<close> products when corresponding leaves have the same size, and
  the error of \<^verbatim>\<open>vdot\<close> when two corresponding leaves have not.
\<close>

theorem tree_dot_cases:
  "(length (tree_leaves a) \<noteq> length (tree_leaves b) \<longrightarrow> tree_dot psum a b = Inl AssertionError)
   \<and> (length (tree_leaves a) = length (tree_leaves b) \<longrightarrow>
        tree_dot psum a b =
          sum_results (RealS (Fin 0))
            (map (\<lambda>p. vdot psum Highest (fst p) (snd p)) (zip (tree_leaves a) (tree_leaves b)))
        \<and> (same_sizes (tree_leaves a) (tree_leaves b) \<longrightarrow>
             tree_dot psum a b =
               Inr (foldl sadd (RealS (Fin 0))
                     (map (\<lambda>p. inner psum (fst p) (snd p)) (zip (tree_leaves a) (tree_leaves b)))))
        \<and> (\<not> same_sizes (tree_leaves a) (tree_leaves b) \<longrightarrow> tree_dot psum a b = Inl DotShapeError))"
  by (simp add: tree_dot_def Let_def same_sizes_def sum_vdots_results [symmetric]
        sum_vdots_same_sizes sum_vdots_other_sizes)

theorem tree_dot_cases_witness:
  "length (tree_leaves (Node [Leaf (RealArr [Fin 1])])) \<noteq> length (tree_leaves (Node []))
   \<and> tree_dot coarse_sum (Node [Leaf (RealArr [Fin 1])]) (Node []) = Inl AssertionError
   \<and> length (tree_leaves (Node [Leaf (RealArr [Fin (1/2), Fin 2]), Leaf (RealArr [Fin 3])]))
       = length (tree_leaves (Node [Leaf (RealArr [Fin 1, Fin 5]), Leaf (RealArr [Fin 6])]))
   \<and> same_sizes (tree_leaves (Node [Leaf (RealArr [Fin (1/2), Fin 2]), Leaf (RealArr [Fin 3])]))
        (tree_leaves (Node [Leaf (RealArr [Fin 1, Fin 5]), Leaf (RealArr [Fin 6])]))
   \<and> tree_dot coarse_sum (Node [Leaf (RealArr [Fin (1/2), Fin 2]), Leaf (RealArr [Fin 3])])
        (Node [Leaf (RealArr [Fin 1, Fin 5]), Leaf (RealArr [Fin 6])]) = Inr (RealS (Fin (57 / 2)))
   \<and> length (tree_leaves (Leaf (RealArr [Fin 1, Fin 2]))) = length (tree_leaves (Leaf (RealArr [Fin 1])))
   \<and> \<not> same_sizes (tree_leaves (Leaf (RealArr [Fin 1, Fin 2]))) (tree_leaves (Leaf (RealArr [Fin 1])))
   \<and> tree_dot coarse_sum (Leaf (RealArr [Fin 1, Fin 2])) (Leaf (RealArr [Fin 1])) = Inl DotShapeError"
proof -
  let ?a = "Node [Leaf (RealArr [Fin (1/2), Fin 2]), Leaf (RealArr [Fin 3])]"
  let ?b = "Node [Leaf (RealArr [Fin 1, Fin 5]), Leaf (RealArr [Fin 6])]"
  let ?c = "Leaf (RealArr [Fin 1, Fin 2])"
  let ?d = "Leaf (RealArr [Fin 1])"
  have l1: "length (tree_leaves (Node [Leaf (RealArr [Fin 1])])) \<noteq> length (tree_leaves (Node []))"
    by simp
  have l2: "length (tree_leaves ?a) = length (tree_leaves ?b)" by simp
  have s2: "same_sizes (tree_leaves ?a) (tree_leaves ?b)" by (simp add: same_sizes_def)
  have l3: "length (tree_leaves ?c) = length (tree_leaves ?d)" by simp
  have s3: "\<not> same_sizes (tree_leaves ?c) (tree_leaves ?d)" by (simp add: same_sizes_def)
  have r1: "tree_dot coarse_sum (Node [Leaf (RealArr [Fin 1])]) (Node []) = Inl AssertionError"
    using tree_dot_cases [of "Node [Leaf (RealArr [Fin 1])]" "Node []" coarse_sum] l1 by blast
  have "tree_dot coarse_sum ?a ?b =
          Inr (foldl sadd (RealS (Fin 0))
                (map (\<lambda>p. inner coarse_sum (fst p) (snd p)) (zip (tree_leaves ?a) (tree_leaves ?b))))"
    using tree_dot_cases [of ?a ?b coarse_sum] l2 s2 by blast
  then have r2: "tree_dot coarse_sum ?a ?b = Inr (RealS (Fin (57 / 2)))"
    by (simp add: inner_def coarse_sum_def fsum_def)
  have r3: "tree_dot coarse_sum ?c ?d = Inl DotShapeError"
    using tree_dot_cases [of ?c ?d coarse_sum] l3 s3 by blast
  show ?thesis using l1 r1 l2 s2 r2 l3 s3 r3 by blast
qed

text \<open>
  Claim C6 as it was stated, "when leaf counts agree, it returns the sum over leaves of
  leaf-wise inner products", fails on two containers of one leaf each whose leaves have
  two and three elements: the numbers of leaves agree, and \<open>tree_dot\<close> ends with the error
  of \<^verbatim>\<open>vdot\<close>.
\<close>

theorem tree_dot_leaf_size_counterexample:
  "length (tree_leaves (Node [Leaf (RealArr [Fin 1, Fin 2])]))
     = length (tree_leaves (Node [Leaf (RealArr [Fin 1, Fin 2, Fin 3])]))
   \<and> tree_dot exact_sum (Node [Leaf (RealArr [Fin 1, Fin 2])]) (Node [Leaf (RealArr [Fin 1, Fin 2, Fin 3])])
     = Inl DotShapeError"
  by (simp add: tree_dot_def vdot_def dot_general_def)

subsection \<open>The maximum norm\<close>

lemma fmaximum_assoc: "fmaximum (fmaximum a b) c = fmaximum a (fmaximum b c)"
  by (cases a; cases b; cases c) auto

lemma foldl_fmaximum_shift: "foldl fmaximum (fmaximum a x) xs = fmaximum a (foldl fmaximum x xs)"
  by (induction xs arbitrary: a x) (simp_all add: fmaximum_assoc)

lemma foldl_fmaximum_append:
  "foldl fmaximum a (xs @ y # ys) = fmaximum (foldl fmaximum a xs) (foldl fmaximum y ys)"
  by (simp add: foldl_fmaximum_shift)

lemma jnp_max_nonempty: "vs \<noteq> [] \<Longrightarrow> jnp_max vs = Inr (foldl fmaximum (hd vs) (tl vs))"
  by (cases vs) simp_all

lemma abs_arr_empty: "(abs_arr l = []) = (size_arr l = 0)"
  by (cases l) simp_all

lemma leaf_maxima_ok:
  "list_all (\<lambda>l. size_arr l \<noteq> 0) ls \<Longrightarrow>
   leaf_maxima ls = Inr (map (\<lambda>l. foldl fmaximum (hd (abs_arr l)) (tl (abs_arr l))) ls)"
  by (induction ls) (simp_all add: jnp_max_nonempty abs_arr_empty)

lemma leaf_maxima_empty_leaf:
  "\<not> list_all (\<lambda>l. size_arr l \<noteq> 0) ls \<Longrightarrow> leaf_maxima ls = Inl ZeroSizeMaxError"
proof (induction ls)
  case Nil then show ?case by simp
next
  case (Cons l ls)
  show ?case
  proof (cases "size_arr l = 0")
    case True
    then have "abs_arr l = []" by (simp add: abs_arr_empty)
    then show ?thesis by simp
  next
    case False
    with Cons show ?thesis by (simp add: jnp_max_nonempty abs_arr_empty)
  qed
qed

text \<open>The maximum of the maxima of the leaves is the maximum over all elements.\<close>

lemma maxima_of_leaves:
  "list_all (\<lambda>l. size_arr l \<noteq> 0) (l # ls) \<Longrightarrow>
   foldl fmaximum (foldl fmaximum (hd (abs_arr l)) (tl (abs_arr l)))
     (map (\<lambda>l. foldl fmaximum (hd (abs_arr l)) (tl (abs_arr l))) ls)
   = foldl fmaximum (hd (abs_arr l)) (tl (abs_arr l) @ concat (map abs_arr ls))"
proof (induction ls arbitrary: l rule: rev_induct)
  case Nil then show ?case by simp
next
  case (snoc k ls)
  then have k: "abs_arr k \<noteq> []" by (simp add: abs_arr_empty)
  then obtain v vs where kv: "abs_arr k = v # vs" by (cases "abs_arr k") auto
  have "list_all (\<lambda>l. size_arr l \<noteq> 0) (l # ls)" using snoc.prems by simp
  from snoc.IH [OF this] show ?case
    by (simp add: kv foldl_fmaximum_shift)
qed

lemma fle_refl: "v \<noteq> NaN \<Longrightarrow> fle v v"
  by (cases v) (simp_all add: fle_def)

lemma fmaximum_NaN_right: "fmaximum a NaN = NaN"
  by (cases a) simp_all

lemma fmaximum_cases:
  "a \<noteq> NaN \<Longrightarrow> b \<noteq> NaN \<Longrightarrow>
   (fmaximum a b = a \<and> fle b a) \<or> (fmaximum a b = b \<and> fle a b)"
  by (cases a; cases b) (auto simp add: fle_def)

lemma fle_trans: "fle a b \<Longrightarrow> fle b c \<Longrightarrow> fle a c"
  by (cases a; cases b; cases c) (auto simp add: fle_def)

lemma foldl_fmaximum_NaN: "NaN \<in> set (v # vs) \<Longrightarrow> foldl fmaximum v vs = NaN"
proof (induction vs arbitrary: v)
  case Nil then show ?case by simp
next
  case (Cons u vs)
  show ?case
  proof (cases "v = NaN \<or> u = NaN")
    case True
    then have "fmaximum v u = NaN" by (auto simp add: fmaximum_NaN_right)
    then show ?thesis using Cons.IH [of NaN] by simp
  next
    case False
    with Cons.prems have "NaN \<in> set vs" by auto
    then show ?thesis using Cons.IH [of "fmaximum v u"] by simp
  qed
qed

lemma foldl_fmaximum_greatest:
  "NaN \<notin> set (v # vs) \<Longrightarrow>
   foldl fmaximum v vs \<in> set (v # vs) \<and> (\<forall>u \<in> set (v # vs). fle u (foldl fmaximum v vs))"
proof (induction vs arbitrary: v)
  case Nil then show ?case by (simp add: fle_refl)
next
  case (Cons w vs)
  then have nv: "v \<noteq> NaN" and nw: "w \<noteq> NaN" and nvs: "NaN \<notin> set vs" by auto
  let ?m = "fmaximum v w"
  from fmaximum_cases [OF nv nw]
  have m: "?m \<in> {v, w}" and vm: "fle v ?m" and wm: "fle w ?m"
    using fle_refl nv nw by auto
  have "?m \<noteq> NaN" using m nv nw by auto
  with nvs have "NaN \<notin> set (?m # vs)" by auto
  from Cons.IH [OF this]
  have r: "foldl fmaximum ?m vs \<in> set (?m # vs)"
    and g: "\<forall>u \<in> set (?m # vs). fle u (foldl fmaximum ?m vs)" by auto
  have "fle ?m (foldl fmaximum ?m vs)" using g by simp
  then have "fle v (foldl fmaximum ?m vs)" "fle w (foldl fmaximum ?m vs)"
    using vm wm fle_trans by blast+
  then show ?case using r g m by auto
qed

lemma foldl_fmaximum_is_maximum: "is_maximum (foldl fmaximum v vs) (v # vs)"
proof (cases "NaN \<in> set (v # vs)")
  case True
  then show ?thesis using foldl_fmaximum_NaN [OF True] by (simp add: is_maximum_def)
next
  case False
  then show ?thesis using foldl_fmaximum_greatest [OF False]
    by (simp add: is_maximum_def list_all_iff)
qed

lemma max_norm_value:
  assumes "tree_leaves x = l # ls" and "no_empty_leaf x"
  shows "max_norm x = Inr (foldl fmaximum (hd (abs_arr l)) (tl (abs_arr l) @ concat (map abs_arr ls)))"
proof -
  have ne: "list_all (\<lambda>l. size_arr l \<noteq> 0) (l # ls)"
    using assms by (simp add: no_empty_leaf_def)
  have "max_norm x =
          tree_reduce_maximum (map (\<lambda>l. foldl fmaximum (hd (abs_arr l)) (tl (abs_arr l))) (l # ls))"
    unfolding max_norm_def assms(1) leaf_maxima_ok [OF ne] by simp
  then show ?thesis
    using maxima_of_leaves [OF ne] by simp
qed

text \<open>
  Claim C10, as amended. On a container without leaves \<open>max_norm\<close> fails: the reduction
  has no initial value. On a container with at least one leaf, and no leaf without
  elements, it returns the maximum of the absolute values of all elements of all leaves.
  A leaf without elements makes it fail, since \<^verbatim>\<open>jnp.max\<close> has no value for it.
\<close>

theorem max_norm_cases:
  "(tree_leaves x = [] \<longrightarrow> max_norm x = Inl EmptyReduceError)
   \<and> (tree_leaves x \<noteq> [] \<and> no_empty_leaf x \<longrightarrow>
        (\<exists>r. max_norm x = Inr r \<and> is_maximum r (concat (map abs_arr (tree_leaves x)))))
   \<and> (\<not> no_empty_leaf x \<longrightarrow> max_norm x = Inl ZeroSizeMaxError)"
proof (intro conjI impI)
  show "tree_leaves x = [] \<Longrightarrow> max_norm x = Inl EmptyReduceError"
    by (simp add: max_norm_def)
  show "\<not> no_empty_leaf x \<Longrightarrow> max_norm x = Inl ZeroSizeMaxError"
    by (simp add: max_norm_def no_empty_leaf_def leaf_maxima_empty_leaf)
  show "\<exists>r. max_norm x = Inr r \<and> is_maximum r (concat (map abs_arr (tree_leaves x)))"
    if h: "tree_leaves x \<noteq> [] \<and> no_empty_leaf x"
  proof -
    from h obtain l ls where ls: "tree_leaves x = l # ls" by (cases "tree_leaves x") auto
    from h ls have "abs_arr l \<noteq> []" by (simp add: no_empty_leaf_def abs_arr_empty)
    then obtain v vs where v: "abs_arr l = v # vs" by (cases "abs_arr l") auto
    have "max_norm x = Inr (foldl fmaximum v (vs @ concat (map abs_arr ls)))"
      using max_norm_value [OF ls] h by (simp add: v)
    moreover have "is_maximum (foldl fmaximum v (vs @ concat (map abs_arr ls)))
                     (concat (map abs_arr (tree_leaves x)))"
      using foldl_fmaximum_is_maximum [of v "vs @ concat (map abs_arr ls)"] by (simp add: ls v)
    ultimately show ?thesis by blast
  qed
qed

text \<open>
  Claim C10 as it was stated, "for every container with at least one leaf it returns the
  maximum absolute value over all leaves", fails on a container with two leaves of which
  one has no element: the absolute values of all elements are just \<open>[1]\<close>, and
  \<open>max_norm\<close> ends with the error of \<^verbatim>\<open>jnp.max\<close>.
\<close>

theorem max_norm_empty_leaf_counterexample:
  "tree_leaves (Node [Leaf (RealArr [Fin 1]), Leaf (RealArr [])]) \<noteq> []
   \<and> concat (map abs_arr (tree_leaves (Node [Leaf (RealArr [Fin 1]), Leaf (RealArr [])]))) = [Fin 1]
   \<and> max_norm (Node [Leaf (RealArr [Fin 1]), Leaf (RealArr [])]) = Inl ZeroSizeMaxError
   \<and> max_norm (Node [Leaf (RealArr [Fin 1]), Leaf (RealArr [])]) \<noteq> Inr (Fin 1)"
  by (simp add: max_norm_def)

theorem max_norm_cases_witness:
  "tree_leaves (Node []) = []
   \<and> max_norm (Node []) = Inl EmptyReduceError
   \<and> tree_leaves (Node [Leaf (RealArr [Fin 1, Fin (- 3)]), Leaf (CplxArr [(Fin 3, Fin 4)])]) \<noteq> []
   \<and> no_empty_leaf (Node [Leaf (RealArr [Fin 1, Fin (- 3)]), Leaf (CplxArr [(Fin 3, Fin 4)])])
   \<and> max_norm (Node [Leaf (RealArr [Fin 1, Fin (- 3)]), Leaf (CplxArr [(Fin 3, Fin 4)])]) = Inr (Fin 5)
   \<and> is_maximum (Fin 5) [Fin 1, Fin 3, Fin 5]
   \<and> \<not> no_empty_leaf (Node [Leaf (RealArr [Fin 1]), Leaf (RealArr [])])
   \<and> max_norm (Node [Leaf (RealArr [Fin 1]), Leaf (RealArr [])]) = Inl ZeroSizeMaxError"
proof -
  let ?x = "Node [Leaf (RealArr [Fin 1, Fin (- 3)]), Leaf (CplxArr [(Fin 3, Fin 4)])]"
  let ?y = "Node [Leaf (RealArr [Fin 1]), Leaf (RealArr [])]"
  have e: "tree_leaves (Node []) = []" by simp
  have l: "tree_leaves ?x \<noteq> []" by simp
  have n: "no_empty_leaf ?x" by (simp add: no_empty_leaf_def)
  have a: "concat (map abs_arr (tree_leaves ?x)) = [Fin 1, Fin 3, Fin 5]"
    by (simp add: cabs_def)
  have m: "max_norm ?x = Inr (Fin 5)" by (simp add: max_norm_def cabs_def)
  have ny: "\<not> no_empty_leaf ?y" by (simp add: no_empty_leaf_def)
  have r1: "max_norm (Node []) = Inl EmptyReduceError"
    using max_norm_cases [of "Node []"] e by blast
  obtain r where "max_norm ?x = Inr r" and "is_maximum r (concat (map abs_arr (tree_leaves ?x)))"
    using max_norm_cases [of ?x] l n by blast
  then have r2: "is_maximum (Fin 5) [Fin 1, Fin 3, Fin 5]"
    by (simp only: m a sum.inject)
  have r3: "max_norm ?y = Inl ZeroSizeMaxError"
    using max_norm_cases [of ?y] ny by blast
  show ?thesis using e r1 l n m r2 ny r3 by blast
qed

subsection \<open>Conversion to an inexact type\<close>

lemma default_floating_inexact: "is_inexact (default_floating_dtype cfg)"
  by (simp add: default_floating_dtype_def)

lemma as_jax_value_error: "isl (as_jax_value cfg x) = int_overflows cfg x"
  by (cases x) (auto simp add: int_bits_def)

lemma as_jax_value_error_kind: "as_jax_value cfg x = Inl e \<Longrightarrow> e = OverflowError"
  by (cases x) (auto split: if_splits)

lemma inexact_asarray_value:
  "as_jax_value cfg x = Inr v \<Longrightarrow>
   inexact_asarray cfg conv x
     = Inr (u_asarray conv
              (if is_inexact (result_type v) then result_type v else default_floating_dtype cfg) v)"
  by (simp add: inexact_asarray_def Let_def)

text \<open>
  Claim C7, as amended. \<open>inexact_asarray\<close> fails on a Python integer outside the default
  integer type, with \<^verbatim>\<open>OverflowError\<close>, and on nothing else. On every other argument it
  returns an array of a floating or complex type: the result type of \<open>x\<close> when that is
  floating or complex already, and otherwise the default floating type, \<^verbatim>\<open>float64\<close> when
  64-bit mode is enabled in the configuration and \<^verbatim>\<open>float32\<close> when it is not; its elements
  are those of \<open>x\<close> converted to that type. The derivative rule of the cast returns the
  cast of the primal value and the cast of the tangent: the tangent output has the type
  asked for and the converted elements of the tangent.
\<close>

theorem inexact_asarray_dtype:
  "(isl (inexact_asarray cfg conv x) = int_overflows cfg x)
   \<and> (int_overflows cfg x \<longrightarrow> inexact_asarray cfg conv x = Inl OverflowError)
   \<and> (\<forall>y. inexact_asarray cfg conv x = Inr y \<longrightarrow> is_inexact (arr_dtype y))
   \<and> (as_jax_value cfg x = Inr v \<and> is_inexact (result_type v) \<longrightarrow>
        inexact_asarray cfg conv x
          = Inr \<lparr>arr_dtype = result_type v,
                 arr_elems = map (conv (result_type v)) (arr_elems v)\<rparr>)
   \<and> (as_jax_value cfg x = Inr v \<and> \<not> is_inexact (result_type v) \<longrightarrow>
        inexact_asarray cfg conv x
          = Inr \<lparr>arr_dtype = (if jax_enable_x64 cfg then Float64 else Float32),
                 arr_elems = map (conv (if jax_enable_x64 cfg then Float64 else Float32)) (arr_elems v)\<rparr>)
   \<and> u_asarray_jvp conv dt p t = (u_asarray conv dt p, u_asarray conv dt t)
   \<and> arr_dtype (snd (u_asarray_jvp conv dt p t)) = dt
   \<and> arr_elems (snd (u_asarray_jvp conv dt p t)) = map (conv dt) (arr_elems t)"
proof -
  have a: "isl (inexact_asarray cfg conv x) = int_overflows cfg x"
    using as_jax_value_error [of cfg x]
    by (cases "as_jax_value cfg x") (simp_all add: inexact_asarray_def)
  have b: "int_overflows cfg x \<Longrightarrow> inexact_asarray cfg conv x = Inl OverflowError"
    using as_jax_value_error [of cfg x] as_jax_value_error_kind [of cfg x]
    by (cases "as_jax_value cfg x") (simp_all add: inexact_asarray_def)
  have c: "\<forall>y. inexact_asarray cfg conv x = Inr y \<longrightarrow> is_inexact (arr_dtype y)"
    by (cases "as_jax_value cfg x")
      (auto simp add: inexact_asarray_def u_asarray_def default_floating_dtype_def Let_def)
  have d: "as_jax_value cfg x = Inr v \<and> is_inexact (result_type v) \<longrightarrow>
        inexact_asarray cfg conv x
          = Inr \<lparr>arr_dtype = result_type v,
                 arr_elems = map (conv (result_type v)) (arr_elems v)\<rparr>"
    by (simp add: inexact_asarray_value u_asarray_def)
  have e: "as_jax_value cfg x = Inr v \<and> \<not> is_inexact (result_type v) \<longrightarrow>
        inexact_asarray cfg conv x
          = Inr \<lparr>arr_dtype = (if jax_enable_x64 cfg then Float64 else Float32),
                 arr_elems = map (conv (if jax_enable_x64 cfg then Float64 else Float32)) (arr_elems v)\<rparr>"
    by (simp add: inexact_asarray_value u_asarray_def default_floating_dtype_def)
  have f: "u_asarray_jvp conv dt p t = (u_asarray conv dt p, u_asarray conv dt t)"
    "arr_dtype (snd (u_asarray_jvp conv dt p t)) = dt"
    "arr_elems (snd (u_asarray_jvp conv dt p t)) = map (conv dt) (arr_elems t)"
    by (simp_all add: u_asarray_jvp_def u_asarray_def)
  from a b c d e f show ?thesis by blast
qed

theorem inexact_asarray_dtype_witness:
  "as_jax_value \<lparr>jax_enable_x64 = False\<rparr> (PyIntArg 3 :: real arraylike)
       = Inr \<lparr>arr_dtype = Int32, arr_elems = [3]\<rparr>
   \<and> \<not> is_inexact (result_type \<lparr>arr_dtype = Int32, arr_elems = [3 :: real]\<rparr>)
   \<and> inexact_asarray \<lparr>jax_enable_x64 = False\<rparr> keep_elem (PyIntArg 3 :: real arraylike)
       = Inr \<lparr>arr_dtype = Float32, arr_elems = [3]\<rparr>
   \<and> inexact_asarray \<lparr>jax_enable_x64 = True\<rparr> keep_elem
        (ArrayArg \<lparr>arr_dtype = Int32, arr_elems = [1, 2 :: real]\<rparr>)
       = Inr \<lparr>arr_dtype = Float64, arr_elems = [1, 2]\<rparr>
   \<and> is_inexact (result_type \<lparr>arr_dtype = Complex64, arr_elems = [1, 2 :: real]\<rparr>)
   \<and> inexact_asarray \<lparr>jax_enable_x64 = True\<rparr> keep_elem
        (ArrayArg \<lparr>arr_dtype = Complex64, arr_elems = [1, 2 :: real]\<rparr>)
       = Inr \<lparr>arr_dtype = Complex64, arr_elems = [1, 2]\<rparr>
   \<and> int_overflows \<lparr>jax_enable_x64 = True\<rparr> (PyIntArg (2 ^ 63) :: real arraylike)
   \<and> inexact_asarray \<lparr>jax_enable_x64 = True\<rparr> keep_elem (PyIntArg (2 ^ 63) :: real arraylike)
       = Inl OverflowError"
proof -
  let ?off = "\<lparr>jax_enable_x64 = False\<rparr>"
  let ?on = "\<lparr>jax_enable_x64 = True\<rparr>"
  let ?i3 = "\<lparr>arr_dtype = Int32, arr_elems = [3 :: real]\<rparr>"
  let ?i = "\<lparr>arr_dtype = Int32, arr_elems = [1, 2 :: real]\<rparr>"
  let ?c = "\<lparr>arr_dtype = Complex64, arr_elems = [1, 2 :: real]\<rparr>"
  have t1: "as_jax_value ?off (PyIntArg 3 :: real arraylike) = Inr ?i3"
    by (simp add: int_bits_def default_int_dtype_def)
  have t2: "as_jax_value ?on (ArrayArg ?i) = Inr ?i" by simp
  have t3: "as_jax_value ?on (ArrayArg ?c) = Inr ?c" by simp
  have n1: "\<not> is_inexact (result_type ?i3)" by (simp add: result_type_def)
  have n2: "\<not> is_inexact (result_type ?i)" by (simp add: result_type_def)
  have c3: "is_inexact (result_type ?c)" by (simp add: result_type_def)
  have o4: "int_overflows ?on (PyIntArg (2 ^ 63) :: real arraylike)" by simp
  have "inexact_asarray ?off keep_elem (PyIntArg 3)
          = Inr \<lparr>arr_dtype = (if jax_enable_x64 ?off then Float64 else Float32),
                 arr_elems = map (keep_elem (if jax_enable_x64 ?off then Float64 else Float32))
                               (arr_elems ?i3)\<rparr>"
    using inexact_asarray_dtype [of ?off keep_elem "PyIntArg 3" ?i3] t1 n1 by blast
  then have r1: "inexact_asarray ?off keep_elem (PyIntArg 3) = Inr \<lparr>arr_dtype = Float32, arr_elems = [3]\<rparr>"
    by (simp add: keep_elem_def)
  have "inexact_asarray ?on keep_elem (ArrayArg ?i)
          = Inr \<lparr>arr_dtype = (if jax_enable_x64 ?on then Float64 else Float32),
                 arr_elems = map (keep_elem (if jax_enable_x64 ?on then Float64 else Float32))
                               (arr_elems ?i)\<rparr>"
    using inexact_asarray_dtype [of ?on keep_elem "ArrayArg ?i" ?i] t2 n2 by blast
  then have r2: "inexact_asarray ?on keep_elem (ArrayArg ?i) = Inr \<lparr>arr_dtype = Float64, arr_elems = [1, 2]\<rparr>"
    by (simp add: keep_elem_def)
  have "inexact_asarray ?on keep_elem (ArrayArg ?c)
          = Inr \<lparr>arr_dtype = result_type ?c,
                 arr_elems = map (keep_elem (result_type ?c)) (arr_elems ?c)\<rparr>"
    using inexact_asarray_dtype [of ?on keep_elem "ArrayArg ?c" ?c] t3 c3 by blast
  then have r3: "inexact_asarray ?on keep_elem (ArrayArg ?c) = Inr \<lparr>arr_dtype = Complex64, arr_elems = [1, 2]\<rparr>"
    by (simp add: keep_elem_def result_type_def)
  have r4: "inexact_asarray ?on keep_elem (PyIntArg (2 ^ 63)) = Inl OverflowError"
    using inexact_asarray_dtype [of ?on keep_elem "PyIntArg (2 ^ 63)"] o4 by blast
  show ?thesis using t1 n1 r1 r2 c3 r3 o4 r4 by blast
qed

text \<open>
  Claim C7 as it was stated, "for every input x, inexact_asarray(x) returns an array",
  fails on the Python integer \<open>2\<^sup>3\<^sup>1\<close> without 64-bit mode: it has no place in the type
  \<^verbatim>\<open>int32\<close>, and the call ends with \<^verbatim>\<open>OverflowError\<close> instead of an array.
\<close>

theorem inexact_asarray_overflow_counterexample:
  "inexact_asarray \<lparr>jax_enable_x64 = False\<rparr> keep_elem (PyIntArg (2 ^ 31) :: real arraylike)
     = Inl OverflowError
   \<and> isl (inexact_asarray \<lparr>jax_enable_x64 = False\<rparr> keep_elem (PyIntArg (2 ^ 31) :: real arraylike))"
  by (simp add: inexact_asarray_def int_bits_def)

subsection \<open>The shape cache\<close>

lemma abstract_to_struct: "abstract_leaf (u_to_struct l) = abstract_leaf l"
  by (cases l) simp_all

lemma abstract_comp_to_struct: "abstract_leaf \<circ> u_to_struct = abstract_leaf"
  by (rule ext) (simp add: abstract_to_struct)

lemma filter_eval_shape_to_struct:
  "filter_eval_shape trace treedef (map u_to_struct leaves) = filter_eval_shape trace treedef leaves"
  by (simp add: filter_eval_shape_def abstract_comp_to_struct)










lemma fes_call_key:
  "filter_eval_shape trace (snd (call_key c)) (fst (call_key c)) = filter_eval_shape trace (fst c) (snd c)"
  by (simp add: call_key_def filter_eval_shape_to_struct)











subsection \<open>Forward and reverse mode\<close>

lemma map2_nth_conv:
  "length xs = n \<Longrightarrow> length ys = n \<Longrightarrow> map2 f xs ys = map (\<lambda>i. f (xs ! i) (ys ! i)) [0..<n]"
  by (simp add: list_eq_iff_nth_eq)

lemma sum_list_delta:
  "j < n \<Longrightarrow> sum_list (map (\<lambda>k. if k = j then (g k :: real) else 0) [0..<n]) = g j"
  by (simp add: interv_sum_list_conv_sum_set_nat)

lemma dot_r_unit_right: "length row = n \<Longrightarrow> j < n \<Longrightarrow> dot_r row (unit_vec n j) = row ! j"
proof -
  assume l: "length row = n" and j: "j < n"
  have "map2 (*) row (unit_vec n j) = map (\<lambda>k. if k = j then row ! k else 0) [0..<n]"
    using l by (simp add: unit_vec_def map2_nth_conv [of row n] cong: map_cong)
  then show ?thesis using j by (simp add: dot_r_def sum_list_delta)
qed

lemma dot_r_unit_left: "length col = m \<Longrightarrow> i < m \<Longrightarrow> dot_r (unit_vec m i) col = col ! i"
proof -
  assume l: "length col = m" and i: "i < m"
  have "map2 (*) (unit_vec m i) col = map (\<lambda>k. if k = i then col ! k else 0) [0..<m]"
    using l by (simp add: unit_vec_def map2_nth_conv [of _ m] cong: map_cong)
  then show ?thesis using i by (simp add: dot_r_def sum_list_delta)
qed

lemma jacfwd_deriv: "wf_deriv fn x \<Longrightarrow> jacfwd fn x = deriv fn x"
proof -
  assume wf: "wf_deriv fn x"
  let ?J = "deriv fn x"
  have m: "length ?J = length (primal fn x)" using wf by (simp add: wf_deriv_def)
  have rows: "\<And>i. i < length ?J \<Longrightarrow> length (?J ! i) = length x"
    using wf by (simp add: wf_deriv_def list_all_length)
  show ?thesis
  proof (rule nth_equalityI)
    show "length (jacfwd fn x) = length ?J" by (simp add: jacfwd_def Let_def m)
  next
    fix i assume "i < length (jacfwd fn x)"
    then have i: "i < length ?J" by (simp add: jacfwd_def Let_def m)
    have "jacfwd fn x ! i = map (\<lambda>j. dot_r (?J ! i) (unit_vec (length x) j)) [0..<length x]"
      using i by (simp add: jacfwd_def Let_def m [symmetric] jvp_def comp_def)
    also have "\<dots> = map (\<lambda>j. ?J ! i ! j) [0..<length x]"
      using rows [OF i] by (simp add: dot_r_unit_right)
    also have "\<dots> = ?J ! i"
      using map_nth [of "?J ! i"] by (simp only: rows [OF i])
    finally show "jacfwd fn x ! i = ?J ! i" .
  qed
qed

lemma jacrev_deriv: "wf_deriv fn x \<Longrightarrow> jacrev fn x = deriv fn x"
proof -
  assume wf: "wf_deriv fn x"
  let ?J = "deriv fn x"
  have m: "length ?J = length (primal fn x)" using wf by (simp add: wf_deriv_def)
  have rows: "\<And>i. i < length ?J \<Longrightarrow> length (?J ! i) = length x"
    using wf by (simp add: wf_deriv_def list_all_length)
  show ?thesis
  proof (rule nth_equalityI)
    show "length (jacrev fn x) = length ?J" by (simp add: jacrev_def Let_def m)
  next
    fix i assume "i < length (jacrev fn x)"
    then have i: "i < length ?J" by (simp add: jacrev_def Let_def m)
    have "jacrev fn x ! i
            = map (\<lambda>j. dot_r (unit_vec (length ?J) i) (map (\<lambda>row. row ! j) ?J)) [0..<length x]"
      using i by (simp add: jacrev_def Let_def m [symmetric] vjp_def)
    also have "\<dots> = map (\<lambda>j. ?J ! i ! j) [0..<length x]"
      using i by (simp add: dot_r_unit_left)
    also have "\<dots> = ?J ! i"
      using map_nth [of "?J ! i"] by (simp only: rows [OF i])
    finally show "jacrev fn x ! i = ?J ! i" .
  qed
qed

text \<open>
  Claim C4. \<open>jacobian\<close> returns the forward-mode transformation of \<open>fn\<close> exactly when
  \<open>in_size < 100\<close> or \<open>in_size \<le> 1.5 * out_size\<close> (on integers: \<open>2 * in_size \<le> 3 * out_size\<close>),
  and the reverse-mode transformation otherwise, with \<open>fn\<close> and \<open>has_aux\<close> passed on
  unchanged. The choice does not change the result: at every point where the
  linearisation of \<open>fn\<close> has the shape of \<open>fn\<close>, both transformations return the matrix of
  partial derivatives (and the same auxiliary output), so the function \<open>jacobian\<close> returns
  computes that matrix whichever branch was taken.
\<close>

theorem jacobian_mode:
  "(is_forward (jacobian fn in_size out_size has_aux)
      \<longleftrightarrow> (in_size < 100 \<or> real_of_int in_size \<le> 1.5 * real_of_int out_size))
   \<and> jacobian fn in_size out_size has_aux
       = (if in_size < 100 \<or> 2 * in_size \<le> 3 * out_size
          then Jacfwd fn has_aux else Jacrev fn has_aux)
   \<and> (wf_deriv fn x \<longrightarrow>
        apply_jac (Jacfwd fn has_aux) x = apply_jac (Jacrev fn has_aux) x
        \<and> apply_jac (jacobian fn in_size out_size has_aux) x
            = (deriv fn x, if has_aux then Some (aux_out fn x) else None))"
proof -
  have e: "(real_of_int in_size \<le> 1.5 * real_of_int out_size) = (2 * in_size \<le> 3 * out_size)"
  proof -
    have "(real_of_int in_size \<le> 1.5 * real_of_int out_size)
            = (real_of_int (2 * in_size) \<le> real_of_int (3 * out_size))"
      by (simp add: field_simps)
    then show ?thesis by (simp only: of_int_le_iff)
  qed
  show ?thesis
    unfolding jacobian_def e
    by (simp add: jacfwd_deriv jacrev_deriv)
qed

theorem jacobian_mode_witness:
  "wf_deriv square_fn [2, 5]
   \<and> is_forward (jacobian square_fn 2 3 False)
   \<and> apply_jac (jacobian square_fn 2 3 False) [2, 5] = ([[5, 2], [1, 1], [1, 0]], None)
   \<and> apply_jac (Jacrev square_fn False) [2, 5] = ([[5, 2], [1, 1], [1, 0]], None)
   \<and> \<not> is_forward (jacobian square_fn 100 66 False)
   \<and> is_forward (jacobian square_fn 99 0 False)
   \<and> is_forward (jacobian square_fn 150 100 False)
   \<and> \<not> is_forward (jacobian square_fn 151 100 False)"
proof -
  have wf: "wf_deriv square_fn [2, 5]"
    by (simp add: wf_deriv_def square_fn_def)
  have d: "deriv square_fn [2, 5] = [[5, 2], [1, 1], [1, 0]]"
    by (simp add: square_fn_def)
  have a: "is_forward (jacobian square_fn 2 3 False)"
    using jacobian_mode [of square_fn 2 3 False] by simp
  have "apply_jac (jacobian square_fn 2 3 False) [2, 5]
          = (deriv square_fn [2, 5], if False then Some (aux_out square_fn [2, 5]) else None)"
    and fr: "apply_jac (Jacfwd square_fn False) [2, 5] = apply_jac (Jacrev square_fn False) [2, 5]"
    and jf: "jacobian square_fn 2 3 False = (if (2::int) < 100 \<or> 2 * (2::int) \<le> 3 * 3
               then Jacfwd square_fn False else Jacrev square_fn False)"
    using jacobian_mode [of square_fn 2 3 False "[2, 5]"] wf by blast+
  then have b: "apply_jac (jacobian square_fn 2 3 False) [2, 5] = ([[5, 2], [1, 1], [1, 0]], None)"
    by (simp only: d if_False)
  have "jacobian square_fn 2 3 False = Jacfwd square_fn False"
    using jf by simp
  with b fr have c: "apply_jac (Jacrev square_fn False) [2, 5] = ([[5, 2], [1, 1], [1, 0]], None)"
    by (simp only:)
  have e: "\<not> is_forward (jacobian square_fn 100 66 False)"
    using jacobian_mode [of square_fn 100 66 False] by simp
  have f: "is_forward (jacobian square_fn 99 0 False)"
    using jacobian_mode [of square_fn 99 0 False] by simp
  have g: "is_forward (jacobian square_fn 150 100 False)"
    using jacobian_mode [of square_fn 150 100 False] by simp
  have h: "\<not> is_forward (jacobian square_fn 151 100 False)"
    using jacobian_mode [of square_fn 151 100 False] by simp
  show ?thesis using wf a b c e f g h by blast
qed

subsection \<open>The solve entry point\<close>

lemma select_pivot_Nil: "(select_pivot rs = None) = (rs = [])"
  by (cases rs) (simp_all split: option.split prod.split)

lemma select_pivot_parts:
  "select_pivot rows = Some (p, rest) \<Longrightarrow>
   set rows = insert p (set rest) \<and> length rows = Suc (length rest)"
proof (induction rows arbitrary: p rest)
  case Nil
  then show ?case by simp
next
  case (Cons r rs)
  show ?case
  proof (cases "select_pivot rs")
    case None
    then have "rs = []" by (simp add: select_pivot_Nil)
    with Cons.prems show ?thesis by simp
  next
    case (Some q)
    obtain p' rest' where q: "q = (p', rest')" by (cases q)
    from Cons.IH [of p' rest'] Some q
    have ih: "set rs = insert p' (set rest')" "length rs = Suc (length rest')" by simp_all
    show ?thesis
    proof (cases "\<bar>lead r\<bar> \<ge> \<bar>lead p'\<bar>")
      case True
      with Cons.prems Some q have "p = r" "rest = rs" by simp_all
      then show ?thesis by simp
    next
      case False
      with Cons.prems Some q have "p = p'" "rest = r # rest'" by simp_all
      then show ?thesis using ih by auto
    qed
  qed
qed

lemma dot_r_Cons: "dot_r (a # as) (x # xs) = a * x + dot_r as xs"
  by (simp add: dot_r_def)

lemma dot_r_eliminated:
  "length as = length bs \<Longrightarrow> length bs = length xs \<Longrightarrow>
   dot_r (map2 (\<lambda>x y. x - f * y) as bs) xs = dot_r as xs - f * dot_r bs xs"
proof (induction as bs xs rule: list_induct3)
  case Nil
  then show ?case by (simp add: dot_r_def)
next
  case (Cons a as b bs x xs)
  have "dot_r (map2 (\<lambda>x y. x - f * y) (a # as) (b # bs)) (x # xs)
          = (a - f * b) * x + dot_r (map2 (\<lambda>x y. x - f * y) as bs) xs"
    by (simp add: dot_r_def)
  also have "\<dots> = (a - f * b) * x + (dot_r as xs - f * dot_r bs xs)"
    by (simp only: Cons.IH)
  also have "\<dots> = dot_r (a # as) (x # xs) - f * dot_r (b # bs) (x # xs)"
    by (simp add: dot_r_Cons algebra_simps)
  finally show ?case .
qed

text \<open>
  The LU solver is sound: when it succeeds on a square system, the value it returns
  satisfies every equation of the system.
\<close>

lemma lu_rows_sound:
  "lu_rows n rows = Some xs \<Longrightarrow> length rows = n \<Longrightarrow> \<forall>r \<in> set rows. length (fst r) = n \<Longrightarrow>
   length xs = n \<and> (\<forall>r \<in> set rows. dot_r (fst r) xs = snd r)"
proof (induction n arbitrary: rows xs)
  case 0
  then show ?case by simp
next
  case (Suc n)
  from Suc.prems(1) obtain p rest where sp: "select_pivot rows = Some (p, rest)"
    by (auto split: option.splits)
  from select_pivot_parts [OF sp]
  have rows: "set rows = insert p (set rest)" and len: "length rows = Suc (length rest)"
    by simp_all
  from Suc.prems(1) sp have nz: "lead p \<noteq> 0"
    by (auto split: if_splits)
  from Suc.prems(1) sp nz obtain ys where
    ys: "lu_rows n (map (eliminate p) rest) = Some ys"
    and xs: "xs = (snd p - sum_list (map2 (*) (tl (fst p)) ys)) / lead p # ys"
    by (auto split: option.splits)
  from Suc.prems(3) rows have lp: "length (fst p) = Suc n" by simp
  then obtain b bs where p: "fst p = b # bs" and lbs: "length bs = n"
    by (cases "fst p") simp_all
  have b: "lead p = b" using p by (cases p) simp
  have lrest: "length (map (eliminate p) rest) = n"
    using len Suc.prems(2) by simp
  have lel: "\<forall>r \<in> set (map (eliminate p) rest). length (fst r) = n"
  proof
    fix r' assume "r' \<in> set (map (eliminate p) rest)"
    then obtain r where r: "r \<in> set rest" and r': "r' = eliminate p r" by auto
    from r rows Suc.prems(3) have "length (fst r) = Suc n" by simp
    then show "length (fst r') = n"
      using lp by (simp add: r' eliminate_def Let_def)
  qed
  from Suc.IH [OF ys lrest lel]
  have lys: "length ys = n"
    and sol: "\<forall>r \<in> set (map (eliminate p) rest). dot_r (fst r) ys = snd r"
    by simp_all
  let ?x0 = "(snd p - dot_r bs ys) / b"
  have xs': "xs = ?x0 # ys" using xs p b by (simp add: dot_r_def)
  have pivot: "dot_r (fst p) xs = snd p"
    using nz b by (simp add: p xs' dot_r_Cons)
  have others: "dot_r (fst r) xs = snd r" if r: "r \<in> set rest" for r
  proof -
    from r rows Suc.prems(3) have "length (fst r) = Suc n" by simp
    then obtain a as where ra: "fst r = a # as" and las: "length as = n"
      by (cases "fst r") simp_all
    have la: "lead r = a" using ra by (cases r) simp
    from sol r have "dot_r (fst (eliminate p r)) ys = snd (eliminate p r)" by simp
    then have "dot_r (map2 (\<lambda>x y. x - a / b * y) as bs) ys = snd r - a / b * snd p"
      by (simp add: eliminate_def Let_def ra p la b)
    then have e: "dot_r as ys - a / b * dot_r bs ys = snd r - a / b * snd p"
      using dot_r_eliminated [of as bs ys "a / b"] las lbs lys by simp
    have "a * ?x0 = a / b * (snd p - dot_r bs ys)" by simp
    with e have "a * ?x0 + dot_r as ys = snd r"
      by (simp add: algebra_simps)
    then show ?thesis by (simp add: ra xs' dot_r_Cons)
  qed
  show ?case
    using lys pivot others rows by (auto simp add: xs')
qed

lemma map_Fin_eq: "(map Fin xs = map Fin ys) = (xs = ys)"
  by (rule inj_map_eq_map) (simp add: inj_def)

lemma lu_solve_sound:
  assumes "lu_solve A b = \<lparr>sol_value = map Fin xs, sol_result = Successful\<rparr>"
    and "length A = length b" and "\<forall>row \<in> set A. length row = length b"
  shows "map (\<lambda>row. dot_r row xs) A = b"
proof -
  from assms(1) have lu: "lu_rows (length b) (zip A b) = Some xs"
    by (cases "lu_rows (length b) (zip A b)") (simp_all add: lu_solve_def map_Fin_eq)
  have l: "length (zip A b) = length b" using assms(2) by simp
  have c: "\<forall>r \<in> set (zip A b). length (fst r) = length b"
    using assms(3) by (auto dest: set_zip_leftD)
  from lu_rows_sound [OF lu l c]
  have s: "\<forall>r \<in> set (zip A b). dot_r (fst r) xs = snd r" by simp
  show ?thesis
  proof (rule nth_equalityI)
    show "length (map (\<lambda>row. dot_r row xs) A) = length b" using assms(2) by simp
  next
    fix i assume "i < length (map (\<lambda>row. dot_r row xs) A)"
    then have i: "i < length A" by simp
    then have "(A ! i, b ! i) \<in> set (zip A b)"
      using assms(2) by (auto simp add: set_zip)
    with s have "dot_r (A ! i) xs = b ! i" by fastforce
    then show "map (\<lambda>row. dot_r row xs) A ! i = b ! i" using i by simp
  qed
qed

lemma select_pivot_example:
  "select_pivot [([1, 5], 3), ([- 2, - 2], 4)] = Some (([- 2, - 2], 4), [([1, 5], 3)])"
  by simp

lemma eliminate_example: "eliminate ([- 2, - 2], 4) ([1, 5], 3) = ([4], 5)"
  by (simp add: eliminate_def Let_def)

lemma lu_rows_example:
  "lu_rows (Suc (Suc 0)) [([1, 5], 3), ([- 2, - 2], 4)] = Some [- 3.25, 1.25]"
  by (simp add: eliminate_example)

lemma lu_solve_example:
  "lu_solve [[1, 5], [- 2, - 2]] [3, 4]
     = \<lparr>sol_value = [Fin (- 3.25), Fin 1.25], sol_result = Successful\<rparr>"
  by (simp add: lu_solve_def eliminate_example)

text \<open>
  Claim C2. The operator built from the blocks \<open>[[1, 5], [-2, -2]]\<close> for a right-hand side of
  two scalars has the dense matrix \<open>[[1, 5], [-2, -2]]\<close>; \<open>linear_solve\<close> with the default
  solver (LU, the operator being square and untagged) and the right-hand side \<open>[3, 4]\<close>
  succeeds with the solution \<open>[-3.25, 1.25]\<close>, whatever the other solvers are; this is the
  value the test reads. The solution satisfies the system.
\<close>

theorem linear_solve_example:
  "PyTreeLinearOperator [[1, 5], [- 2, - 2]] 2 []
     = Inr \<lparr>as_dense = [[1, 5], [- 2, - 2]], op_in_size = 2, op_out_size = 2, op_tags = []\<rparr>
   \<and> linear_solve others
        \<lparr>as_dense = [[1, 5], [- 2, - 2]], op_in_size = 2, op_out_size = 2, op_tags = []\<rparr>
        [3, 4] None True
     = Inr \<lparr>sol_value = [Fin (- 3.25), Fin 1.25], sol_result = Successful\<rparr>
   \<and> test_nontrivial_pytree_operator others = Inr [Fin (- 3.25), Fin 1.25]
   \<and> map (\<lambda>row. dot_r row [- 3.25, 1.25]) [[1, 5], [- 2, - 2]] = [3, 4]"
proof -
  let ?op = "\<lparr>as_dense = [[1, 5], [- 2, - 2]], op_in_size = 2, op_out_size = 2, op_tags = []\<rparr>"
  have c: "PyTreeLinearOperator [[1, 5], [- 2, - 2]] 2 [] = Inr ?op"
    by (simp add: PyTreeLinearOperator_def)
  have d: "default_solver ?op = LU"
    by (simp add: default_solver_def)
  have s: "linear_solve others ?op [3, 4] None True
             = Inr \<lparr>sol_value = [Fin (- 3.25), Fin 1.25], sol_result = Successful\<rparr>"
    by (simp add: linear_solve_def d lu_solve_example)
  have t: "test_nontrivial_pytree_operator others = Inr [Fin (- 3.25), Fin 1.25]"
    by (simp add: test_nontrivial_pytree_operator_def PyTreeLinearOperator_def linear_solve_def
          default_solver_def lu_solve_def eliminate_example)
  have r: "map (\<lambda>row. dot_r row [- 3.25, 1.25]) [[1, 5], [- 2, - 2]] = [3, 4]"
    by (simp add: dot_r_def)
  show ?thesis using c s t r by blast
qed

end
